theory Spec2Isabelle
  imports Complex_Main
begin

section \<open>Python values and exceptions\<close>

text \<open>
  The three scripts are plain Python. Integers are unbounded (\<open>int\<close>), an exception is a
  value of \<open>error\<close> returned on the left of a sum, and a list is a HOL list.
\<close>

datatype error = ValueError | IndexError | ZeroDivisionError | OverflowError

text \<open>An RGB triple \<open>(r, g, b)\<close> and an RGBA pixel \<open>[r, g, b, a]\<close>.\<close>

type_synonym color = "int \<times> int \<times> int"
type_synonym pixel = "int \<times> int \<times> int \<times> int"

text \<open>
  The values of a byte: the range of a colour channel, and of an element of an array of
  dtype \<open>uint8\<close>.
\<close>

definition is_uint8 :: "int \<Rightarrow> bool" where
  "is_uint8 v \<longleftrightarrow> 0 \<le> v \<and> v \<le> 255"

definition is_uint8_color :: "color \<Rightarrow> bool" where
  "is_uint8_color c = (case c of (r, g, b) \<Rightarrow> is_uint8 r \<and> is_uint8 g \<and> is_uint8 b)"

text \<open>\<open>xs.index(v)\<close>: the position of the first element equal to \<open>v\<close>, ValueError if none.\<close>

fun list_index :: "'a list \<Rightarrow> 'a \<Rightarrow> error + nat" where
  "list_index [] v = Inl ValueError"
| "list_index (x # xs) v =
     (if x = v then Inr 0
      else (case list_index xs v of Inl e \<Rightarrow> Inl e | Inr i \<Rightarrow> Inr (Suc i)))"

text \<open>
  \<open>xs[i]\<close> for a Python list: positions \<open>0 .. len-1\<close> read from the front,
  positions \<open>-len .. -1\<close> read from the back, anything else raises IndexError.
\<close>

definition list_get :: "'a list \<Rightarrow> int \<Rightarrow> error + 'a" where
  "list_get xs i =
     (if 0 \<le> i \<and> i < int (length xs) then Inr (xs ! nat i)
      else if - int (length xs) \<le> i \<and> i < 0 then Inr (xs ! nat (int (length xs) + i))
      else Inl IndexError)"

section \<open>RetroColorPalette\<close>

record RetroColorPalette =
  name :: string
  colors :: "color list"

definition RetroColorPalette_init :: "string \<Rightarrow> RetroColorPalette" where
  "RetroColorPalette_init n = \<lparr>name = n, colors = []\<rparr>"

text \<open>
  \<open>min_dist\<close> starts as \<open>float('inf')\<close> and then holds distances. The distance
  \<open>((r-pr)**2 + (g-pg)**2 + (b-pb)**2) ** 0.5\<close> is a Python float; it is modelled by the
  real square root. The two agree on the order of distances as long as the channels are
  bytes: the squared distance is then an integer of at most \<open>3 * 255\<^sup>2\<close>, two different
  squared distances have square roots more than \<open>0.001\<close> apart and equal ones have the same
  float. Beyond that range the float differs from the real number: large squared distances
  are rounded before the root is taken, and one of \<open>2 ^ 1024\<close> or more cannot be converted to a
  float at all (OverflowError). What is proved below about the nearest entry is therefore
  stated for byte channels.
\<close>

datatype pyfloat = Inf | Fin real

fun float_less :: "real \<Rightarrow> pyfloat \<Rightarrow> bool" where
  "float_less d Inf = True"
| "float_less d (Fin m) = (d < m)"

definition dist_sq :: "int \<Rightarrow> int \<Rightarrow> int \<Rightarrow> color \<Rightarrow> int" where
  "dist_sq r g b p = (case p of (pr, pg, pb) \<Rightarrow> (r - pr)\<^sup>2 + (g - pg)\<^sup>2 + (b - pb)\<^sup>2)"

definition dist_rgb :: "int \<Rightarrow> int \<Rightarrow> int \<Rightarrow> color \<Rightarrow> real" where
  "dist_rgb r g b p = sqrt (real_of_int (dist_sq r g b p))"

text \<open>The loop of \<open>find_closest_color\<close> over \<open>enumerate(self.colors)\<close>, from position \<open>i\<close>.\<close>

fun closest_loop :: "int \<Rightarrow> int \<Rightarrow> int \<Rightarrow> nat \<Rightarrow> color list \<Rightarrow> pyfloat \<Rightarrow> nat \<Rightarrow> nat" where
  "closest_loop r g b i [] min_dist closest_index = closest_index"
| "closest_loop r g b i (p # ps) min_dist closest_index =
     (let d = dist_rgb r g b p in
      if float_less d min_dist then closest_loop r g b (Suc i) ps (Fin d) i
      else closest_loop r g b (Suc i) ps min_dist closest_index)"

definition find_closest_color :: "RetroColorPalette \<Rightarrow> int \<Rightarrow> int \<Rightarrow> int \<Rightarrow> nat" where
  "find_closest_color self r g b = closest_loop r g b 0 (colors self) Inf 0"

text \<open>
  Index \<open>k\<close> holds an entry of \<open>xs\<close> nearest to \<open>(r, g, b)\<close>, and it is the first
  such entry: every entry before it is strictly farther.
\<close>

definition is_closest :: "int \<Rightarrow> int \<Rightarrow> int \<Rightarrow> color list \<Rightarrow> nat \<Rightarrow> bool" where
  "is_closest r g b xs k \<longleftrightarrow>
     k < length xs \<and>
     (\<forall>j<length xs. dist_rgb r g b (xs ! k) \<le> dist_rgb r g b (xs ! j)) \<and>
     (\<forall>j<k. dist_rgb r g b (xs ! k) < dist_rgb r g b (xs ! j))"

text \<open>\<open>(c >> 3) << 3\<close> on a Python integer.\<close>

definition quantize :: "int \<Rightarrow> int" where
  "quantize c = push_bit 3 (drop_bit 3 c)"

text \<open>
  \<open>add_color\<close> returns the index and the palette after the call (the object is
  mutated in place by \<open>append\<close>).
\<close>

definition add_color ::
  "RetroColorPalette \<Rightarrow> int \<Rightarrow> int \<Rightarrow> int \<Rightarrow> error + (nat \<times> RetroColorPalette)" where
  "add_color self r0 g0 b0 =
     (let r = quantize r0; g = quantize g0; b = quantize b0;
          color = (r, g, b)
      in if color \<notin> set (colors self) then
           if length (colors self) < 16 then
             (let self' = self\<lparr>colors := colors self @ [color]\<rparr>
              in case list_index (colors self') color of
                   Inl e \<Rightarrow> Inl e
                 | Inr i \<Rightarrow> Inr (i, self'))
           else Inr (find_closest_color self r g b, self)
         else (case list_index (colors self) color of
                 Inl e \<Rightarrow> Inl e
               | Inr i \<Rightarrow> Inr (i, self)))"

text \<open>
  A sequence of \<open>add_color\<close> calls on one palette: the indices returned, in call
  order, and the palette after the last call. An exception ends the sequence.
\<close>

fun add_colors ::
  "RetroColorPalette \<Rightarrow> color list \<Rightarrow> error + (nat list \<times> RetroColorPalette)" where
  "add_colors self [] = Inr ([], self)"
| "add_colors self ((r, g, b) # cs) =
     (case add_color self r g b of
        Inl e \<Rightarrow> Inl e
      | Inr (i, self') \<Rightarrow>
          (case add_colors self' cs of
             Inl e \<Rightarrow> Inl e
           | Inr (idxs, self'') \<Rightarrow> Inr (i # idxs, self'')))"

text \<open>A stored colour whose three channels have their low 3 bits cleared.\<close>

definition quantized :: "color \<Rightarrow> bool" where
  "quantized c = (case c of (r, g, b) \<Rightarrow> take_bit 3 r = 0 \<and> take_bit 3 g = 0 \<and> take_bit 3 b = 0)"

text \<open>The state invariant of a palette.\<close>

definition palette_inv :: "RetroColorPalette \<Rightarrow> bool" where
  "palette_inv self \<longleftrightarrow>
     length (colors self) \<le> 16 \<and> distinct (colors self) \<and> list_all quantized (colors self)"


section \<open>Frames and loops\<close>

text \<open>
  A frame is a numpy array of shape \<open>(shape0, shape1, 4)\<close> and dtype \<open>uint8\<close>:
  \<open>cells frame y x\<close> is the RGBA pixel \<open>frame[y, x]\<close>, read as four integers.
\<close>

record frame =
  shape0 :: nat
  shape1 :: nat
  cells :: "nat \<Rightarrow> nat \<Rightarrow> pixel"

text \<open>\<open>np.zeros((h, w, 4), dtype=np.uint8)\<close>\<close>

definition zeros :: "nat \<Rightarrow> nat \<Rightarrow> frame" where
  "zeros h w = \<lparr>shape0 = h, shape1 = w, cells = (\<lambda>y x. (0, 0, 0, 0))\<rparr>"

text \<open>\<open>range(a, b)\<close> over Python integers.\<close>

definition py_range :: "int \<Rightarrow> int \<Rightarrow> int list" where
  "py_range a b = [a..b - 1]"

text \<open>
  A \<open>for\<close> loop whose body may raise: the state is threaded through the iterations and
  the first exception leaves the loop.
\<close>

fun for_each :: "'a list \<Rightarrow> ('a \<Rightarrow> 's \<Rightarrow> error + 's) \<Rightarrow> 's \<Rightarrow> error + 's" where
  "for_each [] body s = Inr s"
| "for_each (x # xs) body s =
     (case body x s of Inl e \<Rightarrow> Inl e | Inr s' \<Rightarrow> for_each xs body s')"

section \<open>LegendarySpriteGenerator: drawing primitives\<close>

text \<open>
  The store \<open>frame[y, x] = [r, g, b, a]\<close> at an existing cell. The four Python integers
  are converted to \<open>uint8\<close>. A byte is stored as it is. For an integer outside
  \<open>0 .. 255\<close> NumPy 2 raises OverflowError, which is what the model does; NumPy 1 stored
  such an integer modulo 256 when it fits a C long and raised OverflowError otherwise. The
  statements about stored pixels below are about bytes, where all versions agree.
\<close>

definition setitem :: "frame \<Rightarrow> nat \<Rightarrow> nat \<Rightarrow> pixel \<Rightarrow> error + frame" where
  "setitem frame y x p =
     (case p of (r, g, b, a) \<Rightarrow>
        if is_uint8 r \<and> is_uint8 g \<and> is_uint8 b \<and> is_uint8 a
        then Inr (frame\<lparr>cells := (cells frame)(y := (cells frame y)(x := (r, g, b, a)))\<rparr>)
        else Inl OverflowError)"

text \<open>
  \<open>set_pixel_safe\<close> compares the coordinates with the shape of the frame and stores
  only into a cell that exists; otherwise it does nothing.
\<close>

definition set_pixel_safe ::
  "frame \<Rightarrow> RetroColorPalette \<Rightarrow> int \<Rightarrow> int \<Rightarrow> int \<Rightarrow> int \<Rightarrow> int \<Rightarrow> int \<Rightarrow> error + frame" where
  "set_pixel_safe frame palette x y r g b a =
     (if (0 \<le> x \<and> x < int (shape1 frame)) \<and> (0 \<le> y \<and> y < int (shape0 frame))
      then setitem frame (nat y) (nat x) (r, g, b, a)
      else Inr frame)"

text \<open>\<open>self.set_pixel_safe(frame, palette, x, y, *color)\<close> with the default alpha 255.\<close>

definition set_pixel_color ::
  "frame \<Rightarrow> RetroColorPalette \<Rightarrow> int \<Rightarrow> int \<Rightarrow> color \<Rightarrow> error + frame" where
  "set_pixel_color frame palette x y color =
     (case color of (r, g, b) \<Rightarrow> set_pixel_safe frame palette x y r g b 255)"

text \<open>
  The two comparisons of \<open>draw_circle_with_shading\<close>. \<open>light_factor = n / d\<close> on two
  Python integers is the double nearest to the exact quotient, a tie going to the even
  significand, and the literal \<open>0.3\<close> is the double \<open>5404319552844595 / 2 ^ 54\<close>, a little
  below three tenths. The doubles next to it are \<open>1 / 2 ^ 54\<close> away and its significand is odd,
  so the quotient rounds to a double greater than \<open>0.3\<close> exactly when it is at least the
  midpoint \<open>10808639105689191 / 2 ^ 55\<close> between \<open>0.3\<close> and the next double. Rounding
  commutes with negation, so the quotient rounds to a double less than \<open>-0.3\<close> exactly
  when it is at most minus that midpoint. Where the comparisons are reached the quotient
  lies between -1 and 1, so the division cannot overflow.
\<close>

definition midpoint_0_3 :: real where
  "midpoint_0_3 = 10808639105689191 / 2 ^ 55"

definition div_gt_0_3 :: "int \<Rightarrow> int \<Rightarrow> bool" where
  "div_gt_0_3 n d \<longleftrightarrow> midpoint_0_3 \<le> real_of_int n / real_of_int d"

definition div_lt_minus_0_3 :: "int \<Rightarrow> int \<Rightarrow> bool" where
  "div_lt_minus_0_3 n d \<longleftrightarrow> real_of_int n / real_of_int d \<le> - midpoint_0_3"

text \<open>
  The body of the two loops of \<open>draw_circle_with_shading\<close> at one pixel. The quotient
  \<open>(-dx - dy) / (radius * 2)\<close> is Python's true division: it raises ZeroDivisionError
  for a zero divisor.
\<close>

definition circle_pixel ::
  "RetroColorPalette \<Rightarrow> int \<Rightarrow> int \<Rightarrow> int \<Rightarrow> int \<Rightarrow> int \<Rightarrow> int \<Rightarrow> int \<Rightarrow> int \<Rightarrow> frame
     \<Rightarrow> error + frame" where
  "circle_pixel palette cx cy radius base_color shadow_color highlight_color y x frame =
     (let dx = x - cx; dy = y - cy; dist_sq = dx * dx + dy * dy
      in if dist_sq \<le> radius * radius then
           if radius * 2 = 0 then Inl ZeroDivisionError
           else
             (let color_idx = (if div_gt_0_3 (- dx - dy) (radius * 2) then highlight_color
                               else if div_lt_minus_0_3 (- dx - dy) (radius * 2) then shadow_color
                               else base_color)
              in case list_get (colors palette) color_idx of
                   Inl e \<Rightarrow> Inl e
                 | Inr color \<Rightarrow> set_pixel_color frame palette x y color)
         else Inr frame)"

definition draw_circle_with_shading ::
  "frame \<Rightarrow> RetroColorPalette \<Rightarrow> int \<Rightarrow> int \<Rightarrow> int \<Rightarrow> int \<Rightarrow> int \<Rightarrow> int \<Rightarrow> error + frame" where
  "draw_circle_with_shading frame palette cx cy radius base_color shadow_color highlight_color =
     for_each (py_range (max 0 (cy - radius)) (min (int (shape0 frame)) (cy + radius + 1)))
       (\<lambda>y fr.
          for_each (py_range (max 0 (cx - radius)) (min (int (shape1 fr)) (cx + radius + 1)))
            (circle_pixel palette cx cy radius base_color shadow_color highlight_color y) fr)
       frame"

text \<open>The body of the two loops of \<open>draw_rect_with_shading\<close> at one pixel.\<close>

definition rect_pixel ::
  "RetroColorPalette \<Rightarrow> int \<Rightarrow> int \<Rightarrow> int \<Rightarrow> int \<Rightarrow> int \<Rightarrow> int \<Rightarrow> int \<Rightarrow> int \<Rightarrow> int \<Rightarrow> frame
     \<Rightarrow> error + frame" where
  "rect_pixel palette x y width height base_color shadow_color highlight_color py px frame =
     (let color_idx = (if px = x \<or> py = y then highlight_color
                       else if px = x + width - 1 \<or> py = y + height - 1 then shadow_color
                       else base_color)
      in case list_get (colors palette) color_idx of
           Inl e \<Rightarrow> Inl e
         | Inr color \<Rightarrow> set_pixel_color frame palette px py color)"

definition draw_rect_with_shading ::
  "frame \<Rightarrow> RetroColorPalette \<Rightarrow> int \<Rightarrow> int \<Rightarrow> int \<Rightarrow> int \<Rightarrow> int \<Rightarrow> int \<Rightarrow> int \<Rightarrow> error + frame" where
  "draw_rect_with_shading frame palette x y width height base_color shadow_color highlight_color =
     for_each (py_range y (min (int (shape0 frame)) (y + height)))
       (\<lambda>py fr.
          for_each (py_range x (min (int (shape1 fr)) (x + width)))
            (rect_pixel palette x y width height base_color shadow_color highlight_color py) fr)
       frame"

text \<open>The colour that \<open>draw_brick_wall\<close> chooses at \<open>(x, y)\<close>.\<close>

definition brick_color :: "color \<Rightarrow> color \<Rightarrow> color \<Rightarrow> int \<Rightarrow> int \<Rightarrow> color" where
  "brick_color base_color dark_color light_color x y =
     (if y mod 4 = 3 \<or> ((y div 4) mod 2 = 0 \<and> x mod 8 = 7) \<or> ((y div 4) mod 2 = 1 \<and> x mod 8 = 3)
      then dark_color
      else if (x mod 8 = 0 \<and> (y div 4) mod 2 = 0) \<or> (x mod 8 = 4 \<and> (y div 4) mod 2 = 1)
      then light_color
      else base_color)"

definition draw_brick_wall ::
  "frame \<Rightarrow> RetroColorPalette \<Rightarrow> int \<Rightarrow> int \<Rightarrow> int \<Rightarrow> error + frame" where
  "draw_brick_wall frame palette base dark light =
     (case list_get (colors palette) base of
        Inl e \<Rightarrow> Inl e
      | Inr base_color \<Rightarrow>
     (case list_get (colors palette) dark of
        Inl e \<Rightarrow> Inl e
      | Inr dark_color \<Rightarrow>
     (case list_get (colors palette) light of
        Inl e \<Rightarrow> Inl e
      | Inr light_color \<Rightarrow>
          for_each (py_range 0 16)
            (\<lambda>y fr.
               for_each (py_range 0 16)
                 (\<lambda>x fr. set_pixel_color fr palette x y
                            (brick_color base_color dark_color light_color x y)) fr)
            frame)))"

text \<open>
  What a run of pixel writes leaves behind: the cells of \<open>frame\<close> whose coordinates
  \<open>(x, y)\<close> lie in \<open>S\<close> and inside the frame hold \<open>col x y\<close> with alpha 255, the others
  are as before.
\<close>

definition rgba :: "color \<Rightarrow> pixel" where
  "rgba color = (case color of (r, g, b) \<Rightarrow> (r, g, b, 255))"

definition paint :: "frame \<Rightarrow> (int \<times> int) set \<Rightarrow> (int \<Rightarrow> int \<Rightarrow> color) \<Rightarrow> frame" where
  "paint frame S col =
     frame\<lparr>cells := (\<lambda>y x. if (int x, int y) \<in> S \<and> x < shape1 frame \<and> y < shape0 frame
                            then rgba (col (int x) (int y))
                            else cells frame y x)\<rparr>"

text \<open>
  The colour index that \<open>draw_rect_with_shading\<close> picks at \<open>(px, py)\<close>, read in
  the palette: \<open>ch\<close>, \<open>cs\<close> and \<open>cb\<close> are the highlight, shadow and base entries.
\<close>

definition rect_col :: "int \<Rightarrow> int \<Rightarrow> int \<Rightarrow> int \<Rightarrow> color \<Rightarrow> color \<Rightarrow> color \<Rightarrow> int \<Rightarrow> int \<Rightarrow> color" where
  "rect_col x y width height cb cs ch px py =
     (if px = x \<or> py = y then ch
      else if px = x + width - 1 \<or> py = y + height - 1 then cs
      else cb)"

text \<open>
  The colour index that \<open>draw_circle_with_shading\<close> picks at \<open>(x, y)\<close>, read in
  the palette.
\<close>

definition circle_col :: "int \<Rightarrow> int \<Rightarrow> int \<Rightarrow> color \<Rightarrow> color \<Rightarrow> color \<Rightarrow> int \<Rightarrow> int \<Rightarrow> color" where
  "circle_col cx cy radius cb cs ch x y =
     (if div_gt_0_3 (- (x - cx) - (y - cy)) (radius * 2) then ch
      else if div_lt_minus_0_3 (- (x - cx) - (y - cy)) (radius * 2) then cs
      else cb)"

section \<open>LegendarySpriteGenerator: the player character\<close>

datatype direction = South | West | East | North

text \<open>
  \<open>create_enhanced_player_sprite\<close> of the legendary generator: the offset it passes to
  \<open>draw_legendary_character\<close> for animation frame \<open>frame_idx\<close>.
\<close>

definition walk_offset :: "nat \<Rightarrow> int" where
  "walk_offset frame_idx =
     (if frame_idx = 1 then - 1
      else if frame_idx = 3 then 1
      else 0)"

text \<open>
  Two statements in sequence: the second runs on what the first has left, unless the first
  has raised.
\<close>

definition bind_error :: "error + 'a \<Rightarrow> ('a \<Rightarrow> error + 'b) \<Rightarrow> error + 'b" where
  "bind_error r f = (case r of Inl e \<Rightarrow> Inl e | Inr v \<Rightarrow> f v)"

text \<open>
  The body of the loop of \<open>draw_hair_front\<close> at one pixel of the list; \<open>continue\<close>
  leaves the frame as it is.
\<close>

definition hair_front_pixel ::
  "RetroColorPalette \<Rightarrow> int \<Rightarrow> direction \<Rightarrow> int \<Rightarrow> int \<Rightarrow> int \<Rightarrow> int \<times> int \<Rightarrow> frame \<Rightarrow> error + frame" where
  "hair_front_pixel palette cx direction base_color shadow_color highlight_color p frame =
     (case p of (px, py) \<Rightarrow>
        if direction = West \<and> px > cx then Inr frame
        else if direction = East \<and> px < cx then Inr frame
        else
          (let color_idx =
                 (if px < cx then (if direction \<noteq> East then shadow_color else base_color)
                  else if px > cx then (if direction \<noteq> West then highlight_color else base_color)
                  else base_color)
           in bind_error (list_get (colors palette) color_idx)
                (\<lambda>color. set_pixel_color frame palette px py color)))"

definition draw_hair_front ::
  "frame \<Rightarrow> RetroColorPalette \<Rightarrow> int \<Rightarrow> int \<Rightarrow> direction \<Rightarrow> int \<Rightarrow> int \<Rightarrow> int \<Rightarrow> error + frame" where
  "draw_hair_front frame palette cx cy direction base_color shadow_color highlight_color =
     for_each
       [(cx - 2, cy), (cx - 1, cy), (cx, cy), (cx + 1, cy), (cx + 2, cy),
        (cx - 2, cy + 1), (cx + 2, cy + 1),
        (cx - 1, cy + 2), (cx + 1, cy + 2)]
       (hair_front_pixel palette cx direction base_color shadow_color highlight_color) frame"

definition draw_hair_back ::
  "frame \<Rightarrow> RetroColorPalette \<Rightarrow> int \<Rightarrow> int \<Rightarrow> int \<Rightarrow> int \<Rightarrow> int \<Rightarrow> error + frame" where
  "draw_hair_back frame palette cx cy base_color shadow_color highlight_color =
     for_each
       [(cx - 2, cy), (cx - 1, cy), (cx, cy), (cx + 1, cy), (cx + 2, cy),
        (cx - 2, cy + 1), (cx - 1, cy + 1), (cx, cy + 1), (cx + 1, cy + 1), (cx + 2, cy + 1)]
       (\<lambda>p fr. case p of (px, py) \<Rightarrow>
          bind_error (list_get (colors palette) base_color)
            (\<lambda>color. set_pixel_color fr palette px py color)) frame"

text \<open>
  \<open>draw_legendary_character\<close>. The parameter \<open>offset\<close> is \<open>walk_offset\<close> of the
  source, and \<open>cols\<close> is the tuple \<open>*colors\<close> of palette indices: it is unpacked by
  slices into fourteen names, which raises ValueError when it is shorter. Every drawing call
  works on the frame left by the calls before it.
\<close>

definition draw_legendary_character ::
  "frame \<Rightarrow> RetroColorPalette \<Rightarrow> direction \<Rightarrow> int \<Rightarrow> int list \<Rightarrow> error + frame" where
  "draw_legendary_character frame palette direction offset cols =
     (if length cols < 14 then Inl ValueError
      else
       (let skin_base = cols ! 0; skin_shadow = cols ! 1; skin_highlight = cols ! 2;
            hair_base = cols ! 3; hair_shadow = cols ! 4; hair_highlight = cols ! 5;
            jacket_base = cols ! 6; jacket_shadow = cols ! 7; jacket_highlight = cols ! 8;
            pants_base = cols ! 9; pants_shadow = cols ! 10; pants_highlight = cols ! 11;
            shoes_base = cols ! 12; shirt_color = cols ! 13;
            head_y = 2;
            body_y = 6;
            legs_y = 11;
            left_leg_y = legs_y + offset;
            right_leg_y = legs_y - offset
        in
        bind_error (draw_circle_with_shading frame palette 8 (head_y + 2) 3
                      skin_base skin_shadow skin_highlight) (\<lambda>frame.
        bind_error (if direction \<noteq> North
                    then draw_hair_front frame palette 8 head_y direction
                           hair_base hair_shadow hair_highlight
                    else draw_hair_back frame palette 8 head_y
                           hair_base hair_shadow hair_highlight) (\<lambda>frame.
        bind_error (if direction = South
                    then bind_error (set_pixel_safe frame palette 7 (head_y + 2) 0 0 0 255)
                           (\<lambda>frame. set_pixel_safe frame palette 9 (head_y + 2) 0 0 0 255)
                    else if direction = West
                    then set_pixel_safe frame palette 7 (head_y + 2) 0 0 0 255
                    else if direction = East
                    then set_pixel_safe frame palette 9 (head_y + 2) 0 0 0 255
                    else Inr frame) (\<lambda>frame.
        bind_error (draw_rect_with_shading frame palette 6 body_y 4 5
                      jacket_base jacket_shadow jacket_highlight) (\<lambda>frame.
        bind_error (draw_rect_with_shading frame palette 7 body_y 2 1
                      shirt_color jacket_shadow jacket_highlight) (\<lambda>frame.
        bind_error (if direction \<noteq> West
                    then draw_rect_with_shading frame palette 10 (body_y + 1) 1 3
                           jacket_base jacket_shadow jacket_highlight
                    else Inr frame) (\<lambda>frame.
        bind_error (if direction \<noteq> East
                    then draw_rect_with_shading frame palette 5 (body_y + 1) 1 3
                           jacket_base jacket_shadow jacket_highlight
                    else Inr frame) (\<lambda>frame.
        bind_error (draw_rect_with_shading frame palette 6 left_leg_y 1 4
                      pants_base pants_shadow pants_highlight) (\<lambda>frame.
        bind_error (draw_rect_with_shading frame palette 9 right_leg_y 1 4
                      pants_base pants_shadow pants_highlight) (\<lambda>frame.
        bind_error (bind_error (list_get (colors palette) shoes_base)
                      (set_pixel_color frame palette 5 (left_leg_y + 3))) (\<lambda>frame.
        bind_error (bind_error (list_get (colors palette) shoes_base)
                      (set_pixel_color frame palette 6 (left_leg_y + 3))) (\<lambda>frame.
        bind_error (bind_error (list_get (colors palette) shoes_base)
                      (set_pixel_color frame palette 9 (right_leg_y + 3))) (\<lambda>frame.
        bind_error (list_get (colors palette) shoes_base)
          (set_pixel_color frame palette 10 (right_leg_y + 3))))))))))))))))"

text \<open>A call returns, and the frame it leaves has the shape of the frame it was given.\<close>

definition keeps_shape :: "frame \<Rightarrow> error + frame \<Rightarrow> bool" where
  "keeps_shape fr r \<longleftrightarrow> (\<exists>fr'. r = Inr fr' \<and> shape0 fr' = shape0 fr \<and> shape1 fr' = shape1 fr)"

section \<open>create_enhanced_sprite: the legs\<close>

text \<open>
  \<open>create_enhanced_sprite\<close>, the second script: frame \<open>i\<close> of the sheet is animation frame
  \<open>i % 4\<close>, and \<open>draw_character\<close> places the legs of a frame whose origin row is \<open>y\<close>.
\<close>

definition is_walking :: "nat \<Rightarrow> bool" where
  "is_walking frame_in_direction \<longleftrightarrow> frame_in_direction \<in> {1, 3}"

definition leg_offset :: "nat \<Rightarrow> int" where
  "leg_offset frame_in_direction =
     (if frame_in_direction = 1 then 1
      else (if frame_in_direction = 3 then - 1 else 0))"

definition enhanced_legs_y :: "int \<Rightarrow> int" where
  "enhanced_legs_y y = y + 11"

definition enhanced_left_leg_y :: "int \<Rightarrow> direction \<Rightarrow> bool \<Rightarrow> int \<Rightarrow> int" where
  "enhanced_left_leg_y y direction walking offset =
     enhanced_legs_y y + (if walking then offset else 0)"

definition enhanced_right_leg_y :: "int \<Rightarrow> direction \<Rightarrow> bool \<Rightarrow> int \<Rightarrow> int" where
  "enhanced_right_leg_y y direction walking offset =
     enhanced_legs_y y + (if walking then - offset else 0)"

section \<open>LegendarySprite and its export\<close>

record LegendarySprite =
  sprite_width :: int
  sprite_height :: int
  sprite_name :: string
  sprite_frames :: "frame list"
  sprite_palette :: RetroColorPalette

text \<open>
  The constructor creates the palette \<open>f"{name}_palette"\<close> and adds transparent black
  as its first colour.
\<close>

definition LegendarySprite_init :: "int \<Rightarrow> int \<Rightarrow> string \<Rightarrow> error + LegendarySprite" where
  "LegendarySprite_init w h n =
     (case add_color (RetroColorPalette_init (n @ ''_palette'')) 0 0 0 of
        Inl e \<Rightarrow> Inl e
      | Inr (i, p) \<Rightarrow>
          Inr \<lparr>sprite_width = w, sprite_height = h, sprite_name = n,
                sprite_frames = [], sprite_palette = p\<rparr>)"

definition add_frame :: "LegendarySprite \<Rightarrow> frame \<Rightarrow> LegendarySprite" where
  "add_frame self image_array = self\<lparr>sprite_frames := sprite_frames self @ [image_array]\<rparr>"

text \<open>
  A Pillow image of mode RGBA: its size and the pixel at \<open>(x, y)\<close>. The three operations
  below follow Pillow's documentation. \<open>Image.new\<close> rejects a negative size with
  ValueError; \<open>Image.fromarray\<close> of an array of shape \<open>(h, w, 4)\<close> has size \<open>(w, h)\<close>;
  \<open>paste\<close> with a 2-tuple copies the source into the region whose upper left corner is
  the tuple, as far as it lies inside the target.
\<close>

record image =
  size_w :: nat
  size_h :: nat
  getpixel :: "nat \<Rightarrow> nat \<Rightarrow> pixel"

definition Image_new :: "int \<Rightarrow> int \<Rightarrow> pixel \<Rightarrow> error + image" where
  "Image_new w h fill =
     (if w < 0 \<or> h < 0 then Inl ValueError
      else Inr \<lparr>size_w = nat w, size_h = nat h, getpixel = (\<lambda>x y. fill)\<rparr>)"

definition Image_fromarray :: "frame \<Rightarrow> image" where
  "Image_fromarray frame =
     \<lparr>size_w = shape1 frame, size_h = shape0 frame, getpixel = (\<lambda>x y. cells frame y x)\<rparr>"

definition paste :: "image \<Rightarrow> image \<Rightarrow> int \<Rightarrow> int \<Rightarrow> image" where
  "paste sheet im ox oy =
     sheet\<lparr>getpixel :=
       (\<lambda>x y. if x < size_w sheet \<and> y < size_h sheet
                  \<and> ox \<le> int x \<and> int x < ox + int (size_w im)
                  \<and> oy \<le> int y \<and> int y < oy + int (size_h im)
               then getpixel im (nat (int x - ox)) (nat (int y - oy))
               else getpixel sheet x y)\<rparr>"

text \<open>What \<open>json.dump\<close> is given, and what a file holds.\<close>

datatype json = JString string | JInt int | JArray "json list" | JObject "(string \<times> json) list"

datatype file_content = PNG image | JSON json

text \<open>
  The loop \<open>for i, frame in enumerate(self.frames)\<close> of \<open>save_to_files\<close>, from
  position \<open>i\<close>.
\<close>

fun paste_frames :: "int \<Rightarrow> nat \<Rightarrow> frame list \<Rightarrow> image \<Rightarrow> image" where
  "paste_frames w i [] sheet = sheet"
| "paste_frames w i (frame # rest) sheet =
     paste_frames w (Suc i) rest (paste sheet (Image_fromarray frame) (int i * w) 0)"

text \<open>
  \<open>save_to_files\<close> returns the files it writes: the directory and file name of each,
  with its content. With no frames it only creates the directory.
\<close>

definition save_to_files ::
  "LegendarySprite \<Rightarrow> string \<Rightarrow> error + ((string \<times> string) \<times> file_content) list" where
  "save_to_files self output_dir =
     (if sprite_frames self \<noteq> [] then
        (let sheet_width = sprite_width self * int (length (sprite_frames self));
             sheet_height = sprite_height self
         in case Image_new sheet_width sheet_height (0, 0, 0, 0) of
              Inl e \<Rightarrow> Inl e
            | Inr sheet0 \<Rightarrow>
                (let sheet = paste_frames (sprite_width self) 0 (sprite_frames self) sheet0;
                     palette_data = JObject
                       [(''name'', JString (sprite_name self)),
                        (''colors'', JArray (map (\<lambda>(r, g, b).
                            JObject [(''r'', JInt r), (''g'', JInt g), (''b'', JInt b)])
                            (colors (sprite_palette self)))),
                        (''width'', JInt (sprite_width self)),
                        (''height'', JInt (sprite_height self)),
                        (''frames'', JInt (int (length (sprite_frames self))))]
                 in Inr [((output_dir, sprite_name self @ ''.png''), PNG sheet),
                         ((output_dir, sprite_name self @ ''_palette.json''), JSON palette_data)]))
      else Inr [])"

section \<open>Lists and quantisation\<close>

lemma quantize_eq: "quantize c = c div 8 * 8"
  by (simp add: quantize_def push_bit_eq_mult drop_bit_eq_div)

lemma quantize_low_bits: "take_bit 3 (quantize c) = 0"
  by (simp add: quantize_def take_bit_push_bit)

lemma quantize_idem: "quantize (quantize c) = quantize c"
  by (simp add: quantize_eq)

lemma list_index_mem:
  "v \<in> set xs \<Longrightarrow> \<exists>i. list_index xs v = Inr i \<and> i < length xs \<and> xs ! i = v \<and> (\<forall>j<i. xs ! j \<noteq> v)"
proof (induction xs)
  case Nil
  then show ?case by simp
next
  case (Cons x xs)
  show ?case
  proof (cases "x = v")
    case True
    then show ?thesis by simp
  next
    case False
    with Cons.prems have "v \<in> set xs" by simp
    from Cons.IH [OF this] obtain i where
      i: "list_index xs v = Inr i" "i < length xs" "xs ! i = v" "\<forall>j<i. xs ! j \<noteq> v"
      by blast
    have "\<forall>j<Suc i. (x # xs) ! j \<noteq> v"
      using False i(4) by (auto simp: nth_Cons split: nat.splits)
    with False i show ?thesis by simp
  qed
qed

lemma list_index_append:
  "v \<in> set xs \<Longrightarrow> list_index (xs @ ys) v = list_index xs v"
  by (induction xs) auto

lemma list_index_snoc_new:
  "v \<notin> set xs \<Longrightarrow> list_index (xs @ [v]) v = Inr (length xs)"
  by (induction xs) auto

section \<open>The nearest-colour search\<close>

lemma is_closest_single: "is_closest r g b [p] 0"
  by (simp add: is_closest_def)

lemma is_closest_snoc_new:
  assumes "is_closest r g b xs k" and "dist_rgb r g b p < dist_rgb r g b (xs ! k)"
  shows "is_closest r g b (xs @ [p]) (length xs)"
proof -
  have "\<forall>j<length xs. dist_rgb r g b p < dist_rgb r g b (xs ! j)"
  proof (intro allI impI)
    fix j assume "j < length xs"
    with assms(1) have "dist_rgb r g b (xs ! k) \<le> dist_rgb r g b (xs ! j)"
      by (simp add: is_closest_def)
    with assms(2) show "dist_rgb r g b p < dist_rgb r g b (xs ! j)" by linarith
  qed
  then show ?thesis
    by (simp add: is_closest_def nth_append less_Suc_eq less_imp_le)
qed

lemma is_closest_snoc_keep:
  assumes "is_closest r g b xs k" and "\<not> dist_rgb r g b p < dist_rgb r g b (xs ! k)"
  shows "is_closest r g b (xs @ [p]) k"
proof -
  from assms(1) have k: "k < length xs" by (simp add: is_closest_def)
  have a: "\<forall>j<length xs. dist_rgb r g b (xs ! k) \<le> dist_rgb r g b (xs ! j)"
    using assms(1) by (simp add: is_closest_def)
  have b: "\<forall>j<k. dist_rgb r g b (xs ! k) < dist_rgb r g b (xs ! j)"
    using assms(1) by (simp add: is_closest_def)
  have c: "dist_rgb r g b (xs ! k) \<le> dist_rgb r g b p"
    using assms(2) by linarith
  show ?thesis
    unfolding is_closest_def
  proof (intro conjI allI impI)
    show "k < length (xs @ [p])" using k by simp
  next
    fix j assume "j < length (xs @ [p])"
    then have "j < length xs \<or> j = length xs" by auto
    then show "dist_rgb r g b ((xs @ [p]) ! k) \<le> dist_rgb r g b ((xs @ [p]) ! j)"
      using a c k by (auto simp: nth_append)
  next
    fix j assume "j < k"
    then show "dist_rgb r g b ((xs @ [p]) ! k) < dist_rgb r g b ((xs @ [p]) ! j)"
      using b k by (simp add: nth_append)
  qed
qed

lemma closest_loop_inv:
  "is_closest r g b pre ci \<Longrightarrow>
   is_closest r g b (pre @ ps)
     (closest_loop r g b (length pre) ps (Fin (dist_rgb r g b (pre ! ci))) ci)"
proof (induction ps arbitrary: pre ci)
  case Nil
  then show ?case by simp
next
  case (Cons p ps)
  have app: "pre @ p # ps = (pre @ [p]) @ ps" by simp
  have len: "Suc (length pre) = length (pre @ [p])" by simp
  from Cons.prems have k: "ci < length pre" by (simp add: is_closest_def)
  show ?case
  proof (cases "dist_rgb r g b p < dist_rgb r g b (pre ! ci)")
    case True
    have "is_closest r g b (pre @ [p]) (length pre)"
      by (rule is_closest_snoc_new [OF Cons.prems True])
    from Cons.IH [OF this]
    have "is_closest r g b ((pre @ [p]) @ ps)
            (closest_loop r g b (length (pre @ [p])) ps (Fin (dist_rgb r g b p)) (length pre))"
      by simp
    then show ?thesis
      using True unfolding app by (simp del: append_assoc)
  next
    case False
    have "is_closest r g b (pre @ [p]) ci"
      by (rule is_closest_snoc_keep [OF Cons.prems False])
    from Cons.IH [OF this]
    have "is_closest r g b ((pre @ [p]) @ ps)
            (closest_loop r g b (length (pre @ [p])) ps (Fin (dist_rgb r g b (pre ! ci))) ci)"
      using k by (simp add: nth_append)
    then show ?thesis
      using False unfolding app by (simp del: append_assoc)
  qed
qed

lemma find_closest_color_is_closest:
  assumes "colors self \<noteq> []"
  shows "is_closest r g b (colors self) (find_closest_color self r g b)"
proof -
  from assms obtain p ps where ps: "colors self = p # ps" by (cases "colors self") auto
  have "is_closest r g b ([p] @ ps)
          (closest_loop r g b (length [p]) ps (Fin (dist_rgb r g b ([p] ! 0))) 0)"
    by (rule closest_loop_inv [OF is_closest_single])
  then show ?thesis
    by (simp add: find_closest_color_def ps)
qed

lemma closest_loop_Inf:
  "closest_loop r g b i (p # ps) Inf c = closest_loop r g b (Suc i) ps (Fin (dist_rgb r g b p)) i"
  by simp

lemma closest_loop_Fin:
  "closest_loop r g b i (p # ps) (Fin (dist_rgb r g b q)) c =
     (if dist_sq r g b p < dist_sq r g b q
      then closest_loop r g b (Suc i) ps (Fin (dist_rgb r g b p)) i
      else closest_loop r g b (Suc i) ps (Fin (dist_rgb r g b q)) c)"
  by (simp add: dist_rgb_def)

lemmas closest_eval = closest_loop_Inf closest_loop_Fin closest_loop.simps(1) dist_sq_def

section \<open>One call of add_color\<close>

lemma add_color_present:
  assumes "(quantize r, quantize g, quantize b) \<in> set (colors self)"
    and "list_index (colors self) (quantize r, quantize g, quantize b) = Inr i"
  shows "add_color self r g b = Inr (i, self)"
  using assms by (simp add: add_color_def Let_def)

lemma add_color_append:
  assumes "(quantize r, quantize g, quantize b) \<notin> set (colors self)"
    and "length (colors self) < 16"
  shows "add_color self r g b =
           Inr (length (colors self),
                self\<lparr>colors := colors self @ [(quantize r, quantize g, quantize b)]\<rparr>)"
  using assms by (simp add: add_color_def Let_def list_index_snoc_new)

lemma add_color_full:
  assumes "(quantize r, quantize g, quantize b) \<notin> set (colors self)"
    and "\<not> length (colors self) < 16"
  shows "add_color self r g b =
           Inr (find_closest_color self (quantize r) (quantize g) (quantize b), self)"
  using assms by (simp add: add_color_def Let_def)

lemma add_color_total: "\<exists>k self'. add_color self r g b = Inr (k, self')"
proof (cases "(quantize r, quantize g, quantize b) \<in> set (colors self)")
  case True
  from list_index_mem [OF True] obtain i
    where "list_index (colors self) (quantize r, quantize g, quantize b) = Inr i" by blast
  from add_color_present [OF True this] show ?thesis by blast
next
  case False
  then show ?thesis
    using add_color_append [OF False] add_color_full [OF False]
    by (cases "length (colors self) < 16") auto
qed

lemma add_color_effect:
  assumes "add_color self r g b = Inr (k, self')"
  shows "k < length (colors self') \<and>
         (self' = self \<or>
          (length (colors self) < 16 \<and> (quantize r, quantize g, quantize b) \<notin> set (colors self)
           \<and> self' = self\<lparr>colors := colors self @ [(quantize r, quantize g, quantize b)]\<rparr>))"
proof (cases "(quantize r, quantize g, quantize b) \<in> set (colors self)")
  case True
  from list_index_mem [OF True] obtain i
    where i: "list_index (colors self) (quantize r, quantize g, quantize b) = Inr i"
      "i < length (colors self)" by blast
  from add_color_present [OF True i(1)] assms i(2) show ?thesis by simp
next
  case False
  show ?thesis
  proof (cases "length (colors self) < 16")
    case True
    from add_color_append [OF False True] assms show ?thesis using True False by auto
  next
    case full: False
    then have "colors self \<noteq> []" by auto
    from find_closest_color_is_closest [OF this, of "quantize r" "quantize g" "quantize b"]
    have "find_closest_color self (quantize r) (quantize g) (quantize b) < length (colors self)"
      by (simp add: is_closest_def)
    with add_color_full [OF False full] assms show ?thesis by auto
  qed
qed

lemma add_color_cases:
  assumes "add_color self r g b = Inr (i, self1)"
  shows "((quantize r, quantize g, quantize b) \<in> set (colors self) \<and> self1 = self
            \<and> list_index (colors self) (quantize r, quantize g, quantize b) = Inr i)
       \<or> ((quantize r, quantize g, quantize b) \<notin> set (colors self) \<and> length (colors self) < 16
            \<and> self1 = self\<lparr>colors := colors self @ [(quantize r, quantize g, quantize b)]\<rparr>
            \<and> i = length (colors self))
       \<or> ((quantize r, quantize g, quantize b) \<notin> set (colors self) \<and> \<not> length (colors self) < 16
            \<and> self1 = self
            \<and> i = find_closest_color self (quantize r) (quantize g) (quantize b))"
proof (cases "(quantize r, quantize g, quantize b) \<in> set (colors self)")
  case True
  from list_index_mem [OF True] obtain k
    where k: "list_index (colors self) (quantize r, quantize g, quantize b) = Inr k" by blast
  from add_color_present [OF True k] assms k True show ?thesis by simp
next
  case False
  show ?thesis
  proof (cases "length (colors self) < 16")
    case True
    from add_color_append [OF False True] assms False True show ?thesis by simp
  next
    case full: False
    from add_color_full [OF False full] assms False full show ?thesis by simp
  qed
qed

section \<open>Sequences of calls\<close>

lemma add_color_inv:
  assumes "add_color self r g b = Inr (k, self')" and "palette_inv self"
  shows "palette_inv self'"
proof -
  from add_color_effect [OF assms(1)]
  consider "self' = self"
    | "length (colors self) < 16" "(quantize r, quantize g, quantize b) \<notin> set (colors self)"
      "self' = self\<lparr>colors := colors self @ [(quantize r, quantize g, quantize b)]\<rparr>"
    by blast
  then show ?thesis
  proof cases
    case 1
    with assms(2) show ?thesis by simp
  next
    case 2
    with assms(2) show ?thesis
      by (simp add: palette_inv_def quantized_def quantize_low_bits)
  qed
qed

lemma add_color_grow:
  assumes "add_color self r g b = Inr (k, self')"
  shows "\<exists>extra. self' = self\<lparr>colors := colors self @ extra\<rparr> \<and>
                 (16 \<le> length (colors self) \<longrightarrow> extra = [])"
proof -
  from add_color_effect [OF assms]
  consider "self' = self"
    | "length (colors self) < 16"
      "self' = self\<lparr>colors := colors self @ [(quantize r, quantize g, quantize b)]\<rparr>"
    by blast
  then show ?thesis
  proof cases
    case 1
    then have "self' = self\<lparr>colors := colors self @ []\<rparr>" by simp
    then show ?thesis by blast
  next
    case 2
    then show ?thesis by auto
  qed
qed

lemma add_colors_total: "\<exists>idxs self'. add_colors self calls = Inr (idxs, self') \<and> length idxs = length calls"
proof (induction calls arbitrary: self)
  case Nil
  show ?case by simp
next
  case (Cons c calls)
  obtain r g b where c: "c = (r, g, b)" by (cases c) auto
  from add_color_total obtain k s1 where k: "add_color self r g b = Inr (k, s1)" by blast
  from Cons.IH [of s1] obtain idxs s2 where "add_colors s1 calls = Inr (idxs, s2)" "length idxs = length calls"
    by blast
  with k c show ?case by simp
qed

lemma add_colors_Cons:
  assumes "add_color self r g b = Inr (k, s1)" and "add_colors s1 calls = Inr (idxs, s2)"
  shows "add_colors self ((r, g, b) # calls) = Inr (k # idxs, s2)"
  using assms by simp

lemma add_colors_ConsE:
  assumes "add_colors self ((r, g, b) # calls) = Inr (ks, s2)"
  obtains k idxs s1 where "add_color self r g b = Inr (k, s1)" "add_colors s1 calls = Inr (idxs, s2)" "ks = k # idxs"
  using assms by (auto split: sum.splits prod.splits)

lemma add_colors_inv:
  "add_colors self calls = Inr (idxs, self') \<Longrightarrow> palette_inv self \<Longrightarrow> palette_inv self'"
proof (induction calls arbitrary: self idxs)
  case Nil
  then show ?case by simp
next
  case (Cons c calls)
  obtain r g b where c: "c = (r, g, b)" by (cases c) auto
  from Cons.prems(1) [unfolded c] obtain k js s1
    where s: "add_color self r g b = Inr (k, s1)" "add_colors s1 calls = Inr (js, self')"
    by (rule add_colors_ConsE)
  from add_color_inv [OF s(1) Cons.prems(2)] have "palette_inv s1" .
  from Cons.IH [OF s(2) this] show ?case .
qed

lemma add_colors_grow:
  "add_colors self calls = Inr (idxs, self') \<Longrightarrow>
     \<exists>extra. self' = self\<lparr>colors := colors self @ extra\<rparr> \<and>
                 (16 \<le> length (colors self) \<longrightarrow> extra = [])"
proof (induction calls arbitrary: self idxs)
  case Nil
  then have "self' = self\<lparr>colors := colors self @ []\<rparr>" by simp
  then show ?case by blast
next
  case (Cons c calls)
  obtain r g b where c: "c = (r, g, b)" by (cases c) auto
  from Cons.prems(1) [unfolded c] obtain k js s1
    where s: "add_color self r g b = Inr (k, s1)" "add_colors s1 calls = Inr (js, self')"
    by (rule add_colors_ConsE)
  from add_color_grow [OF s(1)] obtain e1
    where e1: "s1 = self\<lparr>colors := colors self @ e1\<rparr>" "16 \<le> length (colors self) \<longrightarrow> e1 = []"
    by blast
  from Cons.IH [OF s(2)] obtain e2
    where e2: "self' = s1\<lparr>colors := colors s1 @ e2\<rparr>" "16 \<le> length (colors s1) \<longrightarrow> e2 = []"
    by blast
  have "self' = self\<lparr>colors := colors self @ (e1 @ e2)\<rparr>"
    using e1(1) e2(1) by simp
  moreover have "16 \<le> length (colors self) \<longrightarrow> e1 @ e2 = []"
    using e1 e2(2) by auto
  ultimately show ?case by blast
qed

lemma add_colors_append:
  assumes "add_colors self xs = Inr (idxs, s1)" and "add_colors s1 ys = Inr (js, s2)"
  shows "add_colors self (xs @ ys) = Inr (idxs @ js, s2)"
  using assms
proof (induction xs arbitrary: self idxs)
  case Nil
  then show ?case by simp
next
  case (Cons c xs)
  obtain r g b where c: "c = (r, g, b)" by (cases c) auto
  from Cons.prems(1) [unfolded c] obtain k ks t
    where s: "add_color self r g b = Inr (k, t)" "add_colors t xs = Inr (ks, s1)" "idxs = k # ks"
    by (rule add_colors_ConsE)
  from Cons.IH [OF s(2) Cons.prems(2)] have "add_colors t (xs @ ys) = Inr (ks @ js, s2)" .
  with s(1,3) c show ?case by simp
qed

lemma palette_inv_init: "palette_inv (RetroColorPalette_init n)"
  by (simp add: palette_inv_def RetroColorPalette_init_def)

lemma add_colors_indices_valid:
  "add_colors self calls = Inr (idxs, p) \<Longrightarrow> list_all (\<lambda>k. k < length (colors p)) idxs"
proof (induction calls arbitrary: self idxs)
  case Nil
  then show ?case by simp
next
  case (Cons c calls)
  obtain r g b where c: "c = (r, g, b)" by (cases c) auto
  from Cons.prems [unfolded c] obtain k ks s1
    where s: "add_color self r g b = Inr (k, s1)" "add_colors s1 calls = Inr (ks, p)" "idxs = k # ks"
    by (rule add_colors_ConsE)
  from add_color_effect [OF s(1)] have k: "k < length (colors s1)" by simp
  from add_colors_grow [OF s(2)] obtain extra where "p = s1\<lparr>colors := colors s1 @ extra\<rparr>"
    by blast
  then have "length (colors s1) \<le> length (colors p)" by simp
  with k have "k < length (colors p)" by simp
  with Cons.IH [OF s(2)] s(3) show ?case by simp
qed

lemma list_get_valid: "k < length xs \<Longrightarrow> list_get xs (int k) = Inr (xs ! k)"
  by (simp add: list_get_def)


lemmas add_color_eval = add_color_def Let_def quantize_eq RetroColorPalette_init_def

section \<open>The palette claims\<close>

text \<open>
  Claim C1, for colours whose channels are bytes: the three arguments and every channel
  stored in the palette lie in \<open>0 .. 255\<close>. Then \<open>add_color\<close> does not raise. On a
  palette that holds 16 entries, a call whose quantised triple is not stored returns the
  index \<open>k\<close> of a stored entry at minimum Euclidean distance from the quantised triple,
  every entry before \<open>k\<close> being strictly farther (the first of the nearest entries), and
  the palette is unchanged.
\<close>

theorem add_color_full_palette_nearest:
  assumes "is_uint8 r" and "is_uint8 g" and "is_uint8 b"
    and "list_all is_uint8_color (colors self)"
  shows "(\<exists>k self'. add_color self r g b = Inr (k, self')) \<and>
   (length (colors self) = 16 \<and> (quantize r, quantize g, quantize b) \<notin> set (colors self) \<longrightarrow>
      (\<exists>k. add_color self r g b = Inr (k, self) \<and> k < length (colors self) \<and>
           (\<forall>j<length (colors self).
               dist_rgb (quantize r) (quantize g) (quantize b) (colors self ! k)
                 \<le> dist_rgb (quantize r) (quantize g) (quantize b) (colors self ! j)) \<and>
           (\<forall>j<k.
               dist_rgb (quantize r) (quantize g) (quantize b) (colors self ! k)
                 < dist_rgb (quantize r) (quantize g) (quantize b) (colors self ! j))))"
proof (intro conjI impI)
  show "\<exists>k self'. add_color self r g b = Inr (k, self')" by (rule add_color_total)
next
  assume a: "length (colors self) = 16 \<and> (quantize r, quantize g, quantize b) \<notin> set (colors self)"
  then have new: "(quantize r, quantize g, quantize b) \<notin> set (colors self)"
    and full: "\<not> length (colors self) < 16" and ne: "colors self \<noteq> []" by auto
  let ?k = "find_closest_color self (quantize r) (quantize g) (quantize b)"
  have "add_color self r g b = Inr (?k, self)" by (rule add_color_full [OF new full])
  moreover have "is_closest (quantize r) (quantize g) (quantize b) (colors self) ?k"
    by (rule find_closest_color_is_closest [OF ne])
  ultimately show "\<exists>k. add_color self r g b = Inr (k, self) \<and> k < length (colors self) \<and>
           (\<forall>j<length (colors self).
               dist_rgb (quantize r) (quantize g) (quantize b) (colors self ! k)
                 \<le> dist_rgb (quantize r) (quantize g) (quantize b) (colors self ! j)) \<and>
           (\<forall>j<k.
               dist_rgb (quantize r) (quantize g) (quantize b) (colors self ! k)
                 < dist_rgb (quantize r) (quantize g) (quantize b) (colors self ! j))"
    unfolding is_closest_def by blast
qed


text \<open>
  The theorem at a palette of sixteen reds and the call \<open>add_color(12, 8, 0)\<close>: the
  quantised triple \<open>(8, 8, 0)\<close> is new, and the call returns index 1, the entry
  \<open>(8, 0, 0)\<close>.
\<close>

theorem add_color_full_palette_nearest_witness:
  "is_uint8 12 \<and> is_uint8 8 \<and> is_uint8 0
   \<and> list_all is_uint8_color (colors \<lparr>name = ''p'', colors = [(0,0,0), (8,0,0), (16,0,0), (24,0,0), (32,0,0), (40,0,0),
        (48,0,0), (56,0,0), (64,0,0), (72,0,0), (80,0,0), (88,0,0), (96,0,0), (104,0,0),
        (112,0,0), (120,0,0)]\<rparr>)
   \<and> length (colors \<lparr>name = ''p'', colors = [(0,0,0), (8,0,0), (16,0,0), (24,0,0), (32,0,0), (40,0,0),
        (48,0,0), (56,0,0), (64,0,0), (72,0,0), (80,0,0), (88,0,0), (96,0,0), (104,0,0),
        (112,0,0), (120,0,0)]\<rparr>) = 16
   \<and> (quantize 12, quantize 8, quantize 0) \<notin> set (colors \<lparr>name = ''p'', colors = [(0,0,0), (8,0,0), (16,0,0), (24,0,0), (32,0,0), (40,0,0),
        (48,0,0), (56,0,0), (64,0,0), (72,0,0), (80,0,0), (88,0,0), (96,0,0), (104,0,0),
        (112,0,0), (120,0,0)]\<rparr>)
   \<and> (\<exists>k. add_color \<lparr>name = ''p'', colors = [(0,0,0), (8,0,0), (16,0,0), (24,0,0), (32,0,0), (40,0,0),
        (48,0,0), (56,0,0), (64,0,0), (72,0,0), (80,0,0), (88,0,0), (96,0,0), (104,0,0),
        (112,0,0), (120,0,0)]\<rparr> 12 8 0 = Inr (k, \<lparr>name = ''p'', colors = [(0,0,0), (8,0,0), (16,0,0), (24,0,0), (32,0,0), (40,0,0),
        (48,0,0), (56,0,0), (64,0,0), (72,0,0), (80,0,0), (88,0,0), (96,0,0), (104,0,0),
        (112,0,0), (120,0,0)]\<rparr>) \<and> k = 1 \<and>
          (\<forall>j<length (colors \<lparr>name = ''p'', colors = [(0,0,0), (8,0,0), (16,0,0), (24,0,0), (32,0,0), (40,0,0),
        (48,0,0), (56,0,0), (64,0,0), (72,0,0), (80,0,0), (88,0,0), (96,0,0), (104,0,0),
        (112,0,0), (120,0,0)]\<rparr>).
              dist_rgb (quantize 12) (quantize 8) (quantize 0) (colors \<lparr>name = ''p'', colors = [(0,0,0), (8,0,0), (16,0,0), (24,0,0), (32,0,0), (40,0,0),
        (48,0,0), (56,0,0), (64,0,0), (72,0,0), (80,0,0), (88,0,0), (96,0,0), (104,0,0),
        (112,0,0), (120,0,0)]\<rparr> ! k)
                \<le> dist_rgb (quantize 12) (quantize 8) (quantize 0) (colors \<lparr>name = ''p'', colors = [(0,0,0), (8,0,0), (16,0,0), (24,0,0), (32,0,0), (40,0,0),
        (48,0,0), (56,0,0), (64,0,0), (72,0,0), (80,0,0), (88,0,0), (96,0,0), (104,0,0),
        (112,0,0), (120,0,0)]\<rparr> ! j)))"
proof -
  let ?p = "\<lparr>name = ''p'', colors = [(0,0,0), (8,0,0), (16,0,0), (24,0,0), (32,0,0), (40,0,0),
        (48,0,0), (56,0,0), (64,0,0), (72,0,0), (80,0,0), (88,0,0), (96,0,0), (104,0,0),
        (112,0,0), (120,0,0)]\<rparr>"
  have u: "is_uint8 12" "is_uint8 8" "is_uint8 0"
    by (simp_all add: is_uint8_def)
  have pu: "list_all is_uint8_color (colors ?p)"
    by (simp add: is_uint8_color_def is_uint8_def)
  have len: "length (colors ?p) = 16" by simp
  have new: "(quantize 12, quantize 8, quantize 0) \<notin> set (colors ?p)"
    by (simp add: quantize_eq)
  from add_color_full_palette_nearest [OF u pu] len new
  obtain k where k: "add_color ?p 12 8 0 = Inr (k, ?p)"
    and mn: "\<forall>j<length (colors ?p).
              dist_rgb (quantize 12) (quantize 8) (quantize 0) (colors ?p ! k)
                \<le> dist_rgb (quantize 12) (quantize 8) (quantize 0) (colors ?p ! j)"
    by blast
  have "add_color ?p 12 8 0 = Inr (1, ?p)"
    by (simp add: add_color_def Let_def quantize_eq find_closest_color_def closest_eval
          del: closest_loop.simps(2))
  with k have "k = 1" by simp
  with k mn len new u pu show ?thesis by blast
qed

text \<open>
  Claim C2. After any sequence of \<open>add_color\<close> calls on a fresh palette, the stored
  list has at most 16 entries, no entry twice, and every channel of every entry has its
  low 3 bits cleared. Whatever calls follow, the list never gets shorter, and once it
  holds 16 entries it stays as it is.
\<close>

theorem palette_invariant:
  "\<exists>idxs p. add_colors (RetroColorPalette_init n) calls = Inr (idxs, p)
      \<and> length (colors p) \<le> 16
      \<and> distinct (colors p)
      \<and> (\<forall>(r, g, b) \<in> set (colors p). take_bit 3 r = 0 \<and> take_bit 3 g = 0 \<and> take_bit 3 b = 0)
      \<and> (\<forall>more. \<exists>jdxs p'. add_colors (RetroColorPalette_init n) (calls @ more) = Inr (jdxs, p')
             \<and> length (colors p) \<le> length (colors p')
             \<and> (length (colors p) = 16 \<longrightarrow> colors p' = colors p))"
proof -
  from add_colors_total obtain idxs p
    where p: "add_colors (RetroColorPalette_init n) calls = Inr (idxs, p)" by blast
  have inv: "palette_inv p"
    by (rule add_colors_inv [OF p palette_inv_init])
  have q: "\<forall>(r, g, b) \<in> set (colors p). take_bit 3 r = 0 \<and> take_bit 3 g = 0 \<and> take_bit 3 b = 0"
    using inv by (auto simp: palette_inv_def list_all_iff quantized_def)
  have later: "\<exists>jdxs p'. add_colors (RetroColorPalette_init n) (calls @ more) = Inr (jdxs, p')
             \<and> length (colors p) \<le> length (colors p')
             \<and> (length (colors p) = 16 \<longrightarrow> colors p' = colors p)" for more
  proof -
    from add_colors_total obtain jdxs p' where p': "add_colors p more = Inr (jdxs, p')" by blast
    from add_colors_grow [OF p'] obtain extra
      where e: "p' = p\<lparr>colors := colors p @ extra\<rparr>" "16 \<le> length (colors p) \<longrightarrow> extra = []"
      by blast
    have "add_colors (RetroColorPalette_init n) (calls @ more) = Inr (idxs @ jdxs, p')"
      by (rule add_colors_append [OF p p'])
    moreover have "length (colors p) \<le> length (colors p')" using e(1) by simp
    moreover have "length (colors p) = 16 \<longrightarrow> colors p' = colors p" using e by simp
    ultimately show ?thesis by blast
  qed
  from p inv q later show ?thesis
    unfolding palette_inv_def by blast
qed

text \<open>
  The invariant after three calls, two of which quantise to the same triple.
\<close>

theorem palette_invariant_witness:
  "\<exists>idxs p. add_colors (RetroColorPalette_init ''p'') [(255, 220, 177), (250, 217, 180), (0, 0, 0)] = Inr (idxs, p)
     \<and> idxs = [0, 0, 1] \<and> colors p = [(248, 216, 176), (0, 0, 0)]
     \<and> length (colors p) \<le> 16 \<and> distinct (colors p)
     \<and> (\<forall>(r, g, b) \<in> set (colors p). take_bit 3 r = 0 \<and> take_bit 3 g = 0 \<and> take_bit 3 b = 0)"
proof -
  from palette_invariant [of "''p''" "[(255, 220, 177), (250, 217, 180), (0, 0, 0)]"]
  obtain idxs p
    where p: "add_colors (RetroColorPalette_init ''p'') [(255, 220, 177), (250, 217, 180), (0, 0, 0)] = Inr (idxs, p)"
      and v: "length (colors p) \<le> 16" "distinct (colors p)"
        "\<forall>(r, g, b) \<in> set (colors p). take_bit 3 r = 0 \<and> take_bit 3 g = 0 \<and> take_bit 3 b = 0"
    by blast
  have "add_colors (RetroColorPalette_init ''p'') [(255, 220, 177), (250, 217, 180), (0, 0, 0)]
          = Inr ([0, 0, 1], \<lparr>name = ''p'', colors = [(248, 216, 176), (0, 0, 0)]\<rparr>)"
    by (simp add: add_color_eval)
  with p have "idxs = [0, 0, 1]" "colors p = [(248, 216, 176), (0, 0, 0)]" by auto
  with p v show ?thesis by blast
qed

text \<open>
  Claim C3. Once a call has returned index \<open>i\<close> for a colour, then after any
  further calls a call with a colour that quantises to the same triple returns \<open>i\<close>
  again and leaves the palette as it found it.
\<close>

theorem add_color_idempotent:
  assumes "add_color self r g b = Inr (i, self1)"
    and "add_colors self1 between = Inr (idxs, self2)"
    and "quantize r' = quantize r" and "quantize g' = quantize g" and "quantize b' = quantize b"
  shows "add_color self2 r' g' b' = Inr (i, self2)"
proof -
  let ?q = "(quantize r, quantize g, quantize b)"
  have q': "(quantize r', quantize g', quantize b') = ?q" using assms(3-5) by simp
  from add_colors_grow [OF assms(2)] obtain extra
    where e: "self2 = self1\<lparr>colors := colors self1 @ extra\<rparr>"
      "16 \<le> length (colors self1) \<longrightarrow> extra = []" by blast
  from add_color_cases [OF assms(1)]
  consider (old) "?q \<in> set (colors self)" "self1 = self" "list_index (colors self) ?q = Inr i"
    | (new) "?q \<notin> set (colors self)" "length (colors self) < 16"
        "self1 = self\<lparr>colors := colors self @ [?q]\<rparr>" "i = length (colors self)"
    | (full) "?q \<notin> set (colors self)" "\<not> length (colors self) < 16" "self1 = self"
        "i = find_closest_color self (quantize r) (quantize g) (quantize b)"
    by blast
  then show ?thesis
  proof cases
    case old
    then have m: "?q \<in> set (colors self1)" and ix: "list_index (colors self1) ?q = Inr i" by simp_all
    have "?q \<in> set (colors self2)" using m e(1) by simp
    moreover have "list_index (colors self2) ?q = Inr i"
      using list_index_append [OF m, of extra] ix e(1) by simp
    ultimately show ?thesis
      using add_color_present [of r' g' b' self2 i] q' by simp
  next
    case new
    then have m: "?q \<in> set (colors self1)" by simp
    have ix: "list_index (colors self1) ?q = Inr i"
      using list_index_snoc_new [OF new(1)] new(3,4) by simp
    have "?q \<in> set (colors self2)" using m e(1) by simp
    moreover have "list_index (colors self2) ?q = Inr i"
      using list_index_append [OF m, of extra] ix e(1) by simp
    ultimately show ?thesis
      using add_color_present [of r' g' b' self2 i] q' by simp
  next
    case full
    then have "extra = []" using e(2) by simp
    then have s2: "self2 = self" using e(1) full(3) by simp
    have "add_color self r' g' b' = Inr (find_closest_color self (quantize r') (quantize g') (quantize b'), self)"
      using add_color_full [of r' g' b' self] q' full(1,2) by simp
    then show ?thesis using s2 full(4) assms(3-5) by simp
  qed
qed

text \<open>
  Skin tone \<open>(255, 220, 177)\<close> is inserted at index 0, black follows, and
  \<open>(250, 217, 180)\<close>, which quantises to the same triple, is answered with index 0.
\<close>

theorem add_color_idempotent_witness:
  "add_color (RetroColorPalette_init ''p'') 255 220 177
      = Inr (0, \<lparr>name = ''p'', colors = [(248, 216, 176)]\<rparr>)
   \<and> add_colors \<lparr>name = ''p'', colors = [(248, 216, 176)]\<rparr> [(0, 0, 0)]
      = Inr ([1], \<lparr>name = ''p'', colors = [(248, 216, 176), (0, 0, 0)]\<rparr>)
   \<and> quantize 250 = quantize 255 \<and> quantize 217 = quantize 220 \<and> quantize 180 = quantize 177
   \<and> add_color \<lparr>name = ''p'', colors = [(248, 216, 176), (0, 0, 0)]\<rparr> 250 217 180
      = Inr (0, \<lparr>name = ''p'', colors = [(248, 216, 176), (0, 0, 0)]\<rparr>)"
proof -
  have a: "add_color (RetroColorPalette_init ''p'') 255 220 177
      = Inr (0, \<lparr>name = ''p'', colors = [(248, 216, 176)]\<rparr>)"
    by (simp add: add_color_eval)
  have b: "add_colors \<lparr>name = ''p'', colors = [(248, 216, 176)]\<rparr> [(0, 0, 0)]
      = Inr ([1], \<lparr>name = ''p'', colors = [(248, 216, 176), (0, 0, 0)]\<rparr>)"
    by (simp add: add_color_eval)
  have c: "quantize 250 = quantize 255" "quantize 217 = quantize 220" "quantize 180 = quantize 177"
    by (simp_all add: quantize_eq)
  from add_color_idempotent [OF a b c] a b c show ?thesis by blast
qed

text \<open>
  Claim C10. Every index that \<open>add_color\<close> returns is a position of the stored
  list at the time of return, so \<open>palette.colors[index]\<close> succeeds; the indices
  returned along a sequence of calls on a fresh palette are all positions of the final
  list. \<open>find_closest_color\<close> itself, on an empty palette, returns 0, where
  \<open>colors[0]\<close> raises IndexError.
\<close>

theorem add_color_index_valid:
  "(\<exists>k self'. add_color self r g b = Inr (k, self') \<and> k < length (colors self')
        \<and> list_get (colors self') (int k) = Inr (colors self' ! k))
   \<and> (\<exists>idxs p. add_colors (RetroColorPalette_init n) calls = Inr (idxs, p)
        \<and> length idxs = length calls
        \<and> list_all (\<lambda>k. k < length (colors p) \<and> list_get (colors p) (int k) = Inr (colors p ! k)) idxs)
   \<and> find_closest_color (RetroColorPalette_init n) r g b = 0
   \<and> list_get (colors (RetroColorPalette_init n)) 0 = Inl IndexError"
proof (intro conjI)
  from add_color_total obtain k self' where k: "add_color self r g b = Inr (k, self')" by blast
  from add_color_effect [OF k] have "k < length (colors self')" by simp
  with k list_get_valid show "\<exists>k self'. add_color self r g b = Inr (k, self') \<and> k < length (colors self')
        \<and> list_get (colors self') (int k) = Inr (colors self' ! k)" by blast
next
  from add_colors_total obtain idxs p
    where p: "add_colors (RetroColorPalette_init n) calls = Inr (idxs, p)" "length idxs = length calls"
    by blast
  from add_colors_indices_valid [OF p(1)]
  have "list_all (\<lambda>k. k < length (colors p) \<and> list_get (colors p) (int k) = Inr (colors p ! k)) idxs"
    by (simp add: list_all_iff list_get_valid)
  with p show "\<exists>idxs p. add_colors (RetroColorPalette_init n) calls = Inr (idxs, p)
        \<and> length idxs = length calls
        \<and> list_all (\<lambda>k. k < length (colors p) \<and> list_get (colors p) (int k) = Inr (colors p ! k)) idxs"
    by blast
next
  show "find_closest_color (RetroColorPalette_init n) r g b = 0"
    by (simp add: find_closest_color_def RetroColorPalette_init_def)
next
  show "list_get (colors (RetroColorPalette_init n)) 0 = Inl IndexError"
    by (simp add: list_get_def RetroColorPalette_init_def)
qed

text \<open>
  The indices returned by three calls on a fresh palette, each read back.
\<close>

theorem add_color_index_valid_witness:
  "\<exists>idxs p. add_colors (RetroColorPalette_init ''p'') [(0, 0, 0), (255, 220, 177), (3, 4, 5)] = Inr (idxs, p)
     \<and> idxs = [0, 1, 0] \<and> colors p = [(0, 0, 0), (248, 216, 176)]
     \<and> list_all (\<lambda>k. k < length (colors p) \<and> list_get (colors p) (int k) = Inr (colors p ! k)) idxs"
proof -
  from add_color_index_valid [of _ _ _ _ "''p''" "[(0, 0, 0), (255, 220, 177), (3, 4, 5)]"]
  obtain idxs p
    where p: "add_colors (RetroColorPalette_init ''p'') [(0, 0, 0), (255, 220, 177), (3, 4, 5)] = Inr (idxs, p)"
      and v: "list_all (\<lambda>k. k < length (colors p) \<and> list_get (colors p) (int k) = Inr (colors p ! k)) idxs"
    by blast
  have "add_colors (RetroColorPalette_init ''p'') [(0, 0, 0), (255, 220, 177), (3, 4, 5)]
          = Inr ([0, 1, 0], \<lparr>name = ''p'', colors = [(0, 0, 0), (248, 216, 176)]\<rparr>)"
    by (simp add: add_color_eval)
  with p have "idxs = [0, 1, 0]" "colors p = [(0, 0, 0), (248, 216, 176)]" by auto
  with p v show ?thesis by blast
qed

section \<open>Pixel writes and loops over a frame\<close>

lemma paint_shape [simp]: "shape0 (paint fr S col) = shape0 fr" "shape1 (paint fr S col) = shape1 fr"
  by (simp_all add: paint_def)

lemma paint_cells:
  "cells (paint fr S col) y x =
     (if (int x, int y) \<in> S \<and> x < shape1 fr \<and> y < shape0 fr
      then rgba (col (int x) (int y))
      else cells fr y x)"
  by (simp add: paint_def)

lemma frame_eqI:
  "shape0 a = shape0 b \<Longrightarrow> shape1 a = shape1 b \<Longrightarrow> (\<And>y x. cells a y x = cells b y x)
     \<Longrightarrow> frame.more a = frame.more b \<Longrightarrow> a = (b :: 'z frame_scheme)"
  by (cases a, cases b) (auto intro!: ext)

lemma paint_more [simp]: "frame.more (paint fr S col) = frame.more fr"
  by (simp add: paint_def)

lemma paint_empty: "paint fr {} col = fr"
  by (rule frame_eqI) (simp_all add: paint_cells)

lemma paint_paint: "paint (paint fr S col) T col = paint fr (S \<union> T) col"
  by (rule frame_eqI) (auto simp: paint_cells)

lemma set_pixel_color_paint:
  assumes "col x y = c" and "is_uint8_color c"
  shows "set_pixel_color fr pal x y c = Inr (paint fr {(x, y)} col)"
proof -
  obtain r g b where c: "c = (r, g, b)" by (cases c)
  from assms(2) have u: "is_uint8 r \<and> is_uint8 g \<and> is_uint8 b \<and> is_uint8 255"
    by (simp add: c is_uint8_color_def is_uint8_def)
  show ?thesis
  proof (cases "(0 \<le> x \<and> x < int (shape1 fr)) \<and> (0 \<le> y \<and> y < int (shape0 fr))")
    case True
    let ?fr = "fr\<lparr>cells := (cells fr)(nat y := (cells fr (nat y))(nat x := (r, g, b, 255)))\<rparr>"
    have "set_pixel_color fr pal x y c = Inr ?fr"
      using True u by (simp add: set_pixel_color_def set_pixel_safe_def setitem_def c)
    moreover have "?fr = paint fr {(x, y)} col"
    proof (rule frame_eqI)
      fix y' x'
      from True have "int x' = x \<and> int y' = y \<longleftrightarrow> x' = nat x \<and> y' = nat y" by auto
      then show "cells ?fr y' x' = cells (paint fr {(x, y)} col) y' x'"
        using True assms(1) by (auto simp: paint_cells rgba_def c)
    qed simp_all
    ultimately show ?thesis by simp
  next
    case False
    have "set_pixel_color fr pal x y c = Inr fr"
      using False by (auto simp: set_pixel_color_def set_pixel_safe_def c)
    moreover have "fr = paint fr {(x, y)} col"
    proof (rule frame_eqI)
      fix y' x'
      from False have "\<not> (int x' = x \<and> int y' = y \<and> x' < shape1 fr \<and> y' < shape0 fr)" by auto
      then show "cells fr y' x' = cells (paint fr {(x, y)} col) y' x'"
        by (auto simp: paint_cells)
    qed simp_all
    ultimately show ?thesis by simp
  qed
qed

lemma for_each_paint:
  assumes "\<And>x fr. x \<in> set xs \<Longrightarrow> shape0 fr = h \<Longrightarrow> shape1 fr = w \<Longrightarrow>
             body x fr = Inr (paint fr (A x) col)"
    and "shape0 fr = h" and "shape1 fr = w"
  shows "for_each xs body fr = Inr (paint fr (\<Union>x\<in>set xs. A x) col)"
  using assms
proof (induction xs arbitrary: fr)
  case Nil
  then show ?case by (simp add: paint_empty)
next
  case (Cons x xs)
  have step: "body x fr = Inr (paint fr (A x) col)"
    by (rule Cons.prems(1)) (simp_all add: Cons.prems)
  have "for_each xs body (paint fr (A x) col)
          = Inr (paint (paint fr (A x) col) (\<Union>x\<in>set xs. A x) col)"
    by (rule Cons.IH) (simp_all add: Cons.prems)
  then show ?case
    using step by (simp add: paint_paint)
qed

lemma set_py_range: "set (py_range a b) = {x. a \<le> x \<and> x < b}"
  by (auto simp: py_range_def)

lemma for_each_row:
  assumes "\<And>x fr. a \<le> x \<Longrightarrow> x < b \<Longrightarrow> shape0 fr = h \<Longrightarrow> shape1 fr = w \<Longrightarrow>
             body x fr = Inr (paint fr (A x) col)"
    and "shape0 fr = h" and "shape1 fr = w"
  shows "for_each (py_range a b) body fr = Inr (paint fr (\<Union>x\<in>{x. a \<le> x \<and> x < b}. A x) col)"
proof -
  have "for_each (py_range a b) body fr = Inr (paint fr (\<Union>x\<in>set (py_range a b). A x) col)"
    by (rule for_each_paint [where h = h and w = w]) (simp_all add: assms set_py_range)
  then show ?thesis by (simp add: set_py_range)
qed

lemma list_get_eval:
  "list_get (c0 # cs) 0 = Inr c0"
  "list_get [c0, c1, c2, c3] 1 = Inr c1"
  "list_get [c0, c1, c2, c3] 2 = Inr c2"
  "list_get [c0, c1, c2, c3] 3 = Inr c3"
  by (simp_all add: list_get_def)

section \<open>The drawing primitives\<close>

lemma rect_col_uint8:
  "is_uint8_color cb \<Longrightarrow> is_uint8_color cs \<Longrightarrow> is_uint8_color ch
     \<Longrightarrow> is_uint8_color (rect_col x y width height cb cs ch px py)"
  by (simp add: rect_col_def)

lemma rect_pixel_paint:
  assumes "list_get (colors palette) base_color = Inr cb"
    and "list_get (colors palette) shadow_color = Inr cs"
    and "list_get (colors palette) highlight_color = Inr ch"
    and "is_uint8_color cb" and "is_uint8_color cs" and "is_uint8_color ch"
  shows "rect_pixel palette x y width height base_color shadow_color highlight_color py px fr
           = Inr (paint fr {(px, py)} (rect_col x y width height cb cs ch))"
proof -
  have "rect_pixel palette x y width height base_color shadow_color highlight_color py px fr
          = set_pixel_color fr palette px py (rect_col x y width height cb cs ch px py)"
    using assms(1-3) by (simp add: rect_pixel_def rect_col_def)
  also have "\<dots> = Inr (paint fr {(px, py)} (rect_col x y width height cb cs ch))"
    by (rule set_pixel_color_paint [OF refl rect_col_uint8 [OF assms(4-6)]])
  finally show ?thesis .
qed

lemma draw_rect_paint:
  assumes "list_get (colors palette) base_color = Inr cb"
    and "list_get (colors palette) shadow_color = Inr cs"
    and "list_get (colors palette) highlight_color = Inr ch"
    and "is_uint8_color cb" and "is_uint8_color cs" and "is_uint8_color ch"
  shows "draw_rect_with_shading frame palette x y width height base_color shadow_color highlight_color
           = Inr (paint frame
                   {(px, py). y \<le> py \<and> py < min (int (shape0 frame)) (y + height)
                            \<and> x \<le> px \<and> px < min (int (shape1 frame)) (x + width)}
                   (rect_col x y width height cb cs ch))"
proof -
  let ?col = "rect_col x y width height cb cs ch"
  let ?A = "\<lambda>py. {(px, py') | px py'. py' = py \<and> x \<le> px \<and> px < min (int (shape1 frame)) (x + width)}"
  have row: "for_each (py_range x (min (int (shape1 fr)) (x + width)))
            (rect_pixel palette x y width height base_color shadow_color highlight_color py) fr
          = Inr (paint fr (?A py) ?col)"
    if "shape0 fr = shape0 frame" "shape1 fr = shape1 frame" for py fr
  proof -
    have "for_each (py_range x (min (int (shape1 fr)) (x + width)))
            (rect_pixel palette x y width height base_color shadow_color highlight_color py) fr
          = Inr (paint fr (\<Union>px\<in>{px. x \<le> px \<and> px < min (int (shape1 fr)) (x + width)}. {(px, py)}) ?col)"
      by (rule for_each_row [where h = "shape0 frame" and w = "shape1 frame"])
         (simp_all add: rect_pixel_paint [OF assms] that)
    moreover have "(\<Union>px\<in>{px. x \<le> px \<and> px < min (int (shape1 fr)) (x + width)}. {(px, py)}) = ?A py"
      using that by auto
    ultimately show ?thesis by simp
  qed
  have "draw_rect_with_shading frame palette x y width height base_color shadow_color highlight_color
          = Inr (paint frame (\<Union>py\<in>{py. y \<le> py \<and> py < min (int (shape0 frame)) (y + height)}. ?A py) ?col)"
    unfolding draw_rect_with_shading_def
  proof (rule for_each_row [where h = "shape0 frame" and w = "shape1 frame"])
    fix py and fr :: frame
    assume "shape0 fr = shape0 frame" "shape1 fr = shape1 frame"
    then show "for_each (py_range x (min (int (shape1 fr)) (x + width)))
            (rect_pixel palette x y width height base_color shadow_color highlight_color py) fr
          = Inr (paint fr (?A py) ?col)"
      by (rule row)
  qed simp_all
  moreover have "(\<Union>py\<in>{py. y \<le> py \<and> py < min (int (shape0 frame)) (y + height)}. ?A py)
      = {(px, py). y \<le> py \<and> py < min (int (shape0 frame)) (y + height)
                            \<and> x \<le> px \<and> px < min (int (shape1 frame)) (x + width)}"
    by auto
  ultimately show ?thesis by simp
qed

lemma brick_color_uint8:
  "is_uint8_color base_color \<Longrightarrow> is_uint8_color dark_color \<Longrightarrow> is_uint8_color light_color
     \<Longrightarrow> is_uint8_color (brick_color base_color dark_color light_color x y)"
  by (simp add: brick_color_def)

lemma draw_brick_paint:
  assumes "list_get (colors palette) base = Inr base_color"
    and "list_get (colors palette) dark = Inr dark_color"
    and "list_get (colors palette) light = Inr light_color"
    and "is_uint8_color base_color" and "is_uint8_color dark_color" and "is_uint8_color light_color"
  shows "draw_brick_wall frame palette base dark light
           = Inr (paint frame {(x, y). 0 \<le> y \<and> y < 16 \<and> 0 \<le> x \<and> x < 16}
                   (brick_color base_color dark_color light_color))"
proof -
  let ?col = "brick_color base_color dark_color light_color"
  let ?A = "\<lambda>y. {(x, y') | x y'. y' = y \<and> 0 \<le> x \<and> x < (16::int)}"
  have px: "set_pixel_color fr palette x y (?col x y) = Inr (paint fr {(x, y)} ?col)"
    for x y and fr :: frame
    by (rule set_pixel_color_paint [OF refl brick_color_uint8 [OF assms(4-6)]])
  have row: "for_each (py_range 0 16)
               (\<lambda>x fr. set_pixel_color fr palette x y (?col x y)) fr
          = Inr (paint fr (?A y) ?col)" for y and fr :: frame
  proof -
    have "for_each (py_range 0 16)
               (\<lambda>x fr. set_pixel_color fr palette x y (?col x y)) fr
          = Inr (paint fr (\<Union>x\<in>{x. 0 \<le> x \<and> x < 16}. {(x, y)}) ?col)"
      by (rule for_each_row [where h = "shape0 fr" and w = "shape1 fr"])
         (simp_all add: px)
    moreover have "(\<Union>x\<in>{x. 0 \<le> x \<and> x < (16::int)}. {(x, y)}) = ?A y" by auto
    ultimately show ?thesis by simp
  qed
  have "for_each (py_range 0 16)
            (\<lambda>y fr. for_each (py_range 0 16)
                 (\<lambda>x fr. set_pixel_color fr palette x y (?col x y)) fr) frame
          = Inr (paint frame (\<Union>y\<in>{y. 0 \<le> y \<and> y < 16}. ?A y) ?col)"
  proof (rule for_each_row [where h = "shape0 frame" and w = "shape1 frame"])
    fix y and fr :: frame
    show "for_each (py_range 0 16)
               (\<lambda>x fr. set_pixel_color fr palette x y (?col x y)) fr
          = Inr (paint fr (?A y) ?col)"
      by (rule row)
  qed simp_all
  moreover have "(\<Union>y\<in>{y. 0 \<le> y \<and> y < (16::int)}. ?A y)
      = {(x, y). 0 \<le> y \<and> y < 16 \<and> 0 \<le> x \<and> x < 16}"
    by auto
  ultimately show ?thesis
    using assms(1-3) by (simp add: draw_brick_wall_def)
qed

lemma circle_col_uint8:
  "is_uint8_color cb \<Longrightarrow> is_uint8_color cs \<Longrightarrow> is_uint8_color ch
     \<Longrightarrow> is_uint8_color (circle_col cx cy radius cb cs ch x y)"
  by (simp add: circle_col_def)

lemma circle_pixel_paint:
  assumes "radius \<noteq> 0"
    and "list_get (colors palette) base_color = Inr cb"
    and "list_get (colors palette) shadow_color = Inr cs"
    and "list_get (colors palette) highlight_color = Inr ch"
    and "is_uint8_color cb" and "is_uint8_color cs" and "is_uint8_color ch"
  shows "circle_pixel palette cx cy radius base_color shadow_color highlight_color y x fr
           = Inr (paint fr (if (x - cx) * (x - cx) + (y - cy) * (y - cy) \<le> radius * radius
                            then {(x, y)} else {})
                   (circle_col cx cy radius cb cs ch))"
proof (cases "(x - cx) * (x - cx) + (y - cy) * (y - cy) \<le> radius * radius")
  case True
  have "circle_pixel palette cx cy radius base_color shadow_color highlight_color y x fr
          = set_pixel_color fr palette x y (circle_col cx cy radius cb cs ch x y)"
    using assms(1-4) True by (simp add: circle_pixel_def circle_col_def Let_def)
  also have "\<dots> = Inr (paint fr {(x, y)} (circle_col cx cy radius cb cs ch))"
    by (rule set_pixel_color_paint [OF refl circle_col_uint8 [OF assms(5-7)]])
  finally show ?thesis
    using True by simp
next
  case False
  then show ?thesis
    by (simp add: circle_pixel_def Let_def paint_empty)
qed

lemma disc_in_box:
  fixes dx dy r :: int
  assumes "dx * dx + dy * dy \<le> r * r" and "0 < r"
  shows "- r \<le> dx \<and> dx \<le> r \<and> - r \<le> dy \<and> dy \<le> r"
proof -
  have nn: "0 \<le> dy * dy" "0 \<le> dx * dx" by simp_all
  have "dx * dx \<le> r * r" using assms(1) nn(1) by linarith
  moreover have "dy * dy \<le> r * r" using assms(1) nn(2) by linarith
  ultimately have "dx\<^sup>2 \<le> r\<^sup>2" "dy\<^sup>2 \<le> r\<^sup>2"
    by (simp_all only: power2_eq_square)
  then have "\<bar>dx\<bar> \<le> \<bar>r\<bar>" "\<bar>dy\<bar> \<le> \<bar>r\<bar>"
    by (simp_all add: abs_le_square_iff)
  with assms(2) show ?thesis by auto
qed

lemma draw_circle_paint:
  assumes "radius \<noteq> 0"
    and "list_get (colors palette) base_color = Inr cb"
    and "list_get (colors palette) shadow_color = Inr cs"
    and "list_get (colors palette) highlight_color = Inr ch"
    and "is_uint8_color cb" and "is_uint8_color cs" and "is_uint8_color ch"
  shows "draw_circle_with_shading frame palette cx cy radius base_color shadow_color highlight_color
           = Inr (paint frame
                   {(x, y). max 0 (cy - radius) \<le> y \<and> y < min (int (shape0 frame)) (cy + radius + 1)
                          \<and> max 0 (cx - radius) \<le> x \<and> x < min (int (shape1 frame)) (cx + radius + 1)
                          \<and> (x - cx) * (x - cx) + (y - cy) * (y - cy) \<le> radius * radius}
                   (circle_col cx cy radius cb cs ch))"
proof -
  let ?col = "circle_col cx cy radius cb cs ch"
  let ?P = "\<lambda>x y. (x - cx) * (x - cx) + (y - cy) * (y - cy) \<le> radius * radius"
  let ?A = "\<lambda>y. {(x, y') | x y'. y' = y \<and> max 0 (cx - radius) \<le> x
                     \<and> x < min (int (shape1 frame)) (cx + radius + 1) \<and> ?P x y}"
  have row: "for_each (py_range (max 0 (cx - radius)) (min (int (shape1 fr)) (cx + radius + 1)))
            (circle_pixel palette cx cy radius base_color shadow_color highlight_color y) fr
          = Inr (paint fr (?A y) ?col)"
    if "shape0 fr = shape0 frame" "shape1 fr = shape1 frame" for y and fr :: frame
  proof -
    have "for_each (py_range (max 0 (cx - radius)) (min (int (shape1 fr)) (cx + radius + 1)))
            (circle_pixel palette cx cy radius base_color shadow_color highlight_color y) fr
          = Inr (paint fr (\<Union>x\<in>{x. max 0 (cx - radius) \<le> x \<and> x < min (int (shape1 fr)) (cx + radius + 1)}.
                             (if ?P x y then {(x, y)} else {})) ?col)"
      by (rule for_each_row [where h = "shape0 frame" and w = "shape1 frame"])
         (simp_all add: circle_pixel_paint [OF assms] that)
    moreover have "(\<Union>x\<in>{x. max 0 (cx - radius) \<le> x \<and> x < min (int (shape1 fr)) (cx + radius + 1)}.
                             (if ?P x y then {(x, y)} else {})) = ?A y"
      using that by (auto split: if_splits)
    ultimately show ?thesis by simp
  qed
  have "draw_circle_with_shading frame palette cx cy radius base_color shadow_color highlight_color
          = Inr (paint frame (\<Union>y\<in>{y. max 0 (cy - radius) \<le> y
                                  \<and> y < min (int (shape0 frame)) (cy + radius + 1)}. ?A y) ?col)"
    unfolding draw_circle_with_shading_def
  proof (rule for_each_row [where h = "shape0 frame" and w = "shape1 frame"])
    fix y and fr :: frame
    assume "shape0 fr = shape0 frame" "shape1 fr = shape1 frame"
    then show "for_each (py_range (max 0 (cx - radius)) (min (int (shape1 fr)) (cx + radius + 1)))
            (circle_pixel palette cx cy radius base_color shadow_color highlight_color y) fr
          = Inr (paint fr (?A y) ?col)"
      by (rule row)
  qed simp_all
  moreover have "(\<Union>y\<in>{y. max 0 (cy - radius) \<le> y
                                  \<and> y < min (int (shape0 frame)) (cy + radius + 1)}. ?A y)
      = {(x, y). max 0 (cy - radius) \<le> y \<and> y < min (int (shape0 frame)) (cy + radius + 1)
                          \<and> max 0 (cx - radius) \<le> x \<and> x < min (int (shape1 frame)) (cx + radius + 1)
                          \<and> ?P x y}"
    by auto
  ultimately show ?thesis by simp
qed

section \<open>The player character\<close>

lemma bind_error_Inr [simp]: "bind_error (Inr v) f = f v"
  by (simp add: bind_error_def)

lemma keeps_shapeE:
  assumes "keeps_shape fr r"
  obtains fr' where "r = Inr fr'" "shape0 fr' = shape0 fr" "shape1 fr' = shape1 fr"
  using assms unfolding keeps_shape_def by blast

lemma keeps_shape_refl: "keeps_shape fr (Inr fr)"
  by (simp add: keeps_shape_def)

lemma keeps_shape_bind:
  assumes "keeps_shape fr r" and "\<And>fr'. shape0 fr' = shape0 fr \<Longrightarrow> shape1 fr' = shape1 fr \<Longrightarrow> keeps_shape fr' (f fr')"
  shows "keeps_shape fr (bind_error r f)"
proof -
  from assms(1) obtain fr' where r: "r = Inr fr'" "shape0 fr' = shape0 fr" "shape1 fr' = shape1 fr"
    by (rule keeps_shapeE)
  from assms(2) [OF r(2,3)] show ?thesis
    using r by (auto simp: keeps_shape_def)
qed

lemma set_pixel_color_keeps_shape:
  "is_uint8_color c \<Longrightarrow> keeps_shape fr (set_pixel_color fr pal x y c)"
  using set_pixel_color_paint [of "\<lambda>_ _. c" x y c fr pal] by (simp add: keeps_shape_def)

lemma set_pixel_safe_black_keeps_shape:
  "keeps_shape fr (set_pixel_safe fr pal x y 0 0 0 255)"
  using set_pixel_color_keeps_shape [of "(0, 0, 0)" fr pal x y]
  by (simp add: set_pixel_color_def is_uint8_color_def is_uint8_def)

lemma for_each_keeps_shape:
  assumes "\<And>x fr. x \<in> set xs \<Longrightarrow> keeps_shape fr (body x fr)"
  shows "keeps_shape fr (for_each xs body fr)"
  using assms
proof (induction xs arbitrary: fr)
  case Nil
  show ?case by (simp add: keeps_shape_def)
next
  case (Cons x xs)
  from Cons.prems [of x fr] obtain fr1
    where 1: "body x fr = Inr fr1" "shape0 fr1 = shape0 fr" "shape1 fr1 = shape1 fr"
    by (auto elim: keeps_shapeE)
  have "keeps_shape fr1 (for_each xs body fr1)"
    by (rule Cons.IH) (simp add: Cons.prems)
  then show ?case
    using 1 by (simp add: keeps_shape_def)
qed

lemma draw_circle_keeps_shape:
  assumes "radius \<noteq> 0"
    and "list_get (colors palette) base_color = Inr cb"
    and "list_get (colors palette) shadow_color = Inr cs"
    and "list_get (colors palette) highlight_color = Inr ch"
    and "is_uint8_color cb" and "is_uint8_color cs" and "is_uint8_color ch"
  shows "keeps_shape frame
           (draw_circle_with_shading frame palette cx cy radius base_color shadow_color highlight_color)"
  by (simp add: draw_circle_paint [OF assms] keeps_shape_def)

lemma draw_rect_keeps_shape:
  assumes "list_get (colors palette) base_color = Inr cb"
    and "list_get (colors palette) shadow_color = Inr cs"
    and "list_get (colors palette) highlight_color = Inr ch"
    and "is_uint8_color cb" and "is_uint8_color cs" and "is_uint8_color ch"
  shows "keeps_shape frame
           (draw_rect_with_shading frame palette x y width height base_color shadow_color highlight_color)"
  by (simp add: draw_rect_paint [OF assms] keeps_shape_def)

lemma draw_hair_front_keeps_shape:
  assumes "list_get (colors palette) base_color = Inr cb"
    and "list_get (colors palette) shadow_color = Inr cs"
    and "list_get (colors palette) highlight_color = Inr ch"
    and "is_uint8_color cb" and "is_uint8_color cs" and "is_uint8_color ch"
  shows "keeps_shape frame
           (draw_hair_front frame palette cx cy direction base_color shadow_color highlight_color)"
  unfolding draw_hair_front_def
proof (rule for_each_keeps_shape)
  fix p :: "int \<times> int" and fr :: frame
  obtain px py where p: "p = (px, py)" by (cases p)
  show "keeps_shape fr
          (hair_front_pixel palette cx direction base_color shadow_color highlight_color p fr)"
    using assms
    by (simp add: p hair_front_pixel_def Let_def set_pixel_color_keeps_shape keeps_shape_refl)
qed

lemma draw_hair_back_keeps_shape:
  assumes "list_get (colors palette) base_color = Inr cb" and "is_uint8_color cb"
  shows "keeps_shape frame
           (draw_hair_back frame palette cx cy base_color shadow_color highlight_color)"
  unfolding draw_hair_back_def
proof (rule for_each_keeps_shape)
  fix p :: "int \<times> int" and fr :: frame
  obtain px py where p: "p = (px, py)" by (cases p)
  show "keeps_shape fr (case p of (px, py) \<Rightarrow>
          bind_error (list_get (colors palette) base_color)
            (\<lambda>color. set_pixel_color fr palette px py color))"
    using assms by (simp add: p set_pixel_color_keeps_shape)
qed

lemma legs_and_shoes:
  assumes sh: "shape0 F = 16" "shape1 F = 16"
    and pb: "list_get (colors palette) pants_base = Inr cb"
    and ps: "list_get (colors palette) pants_shadow = Inr cs"
    and ph: "list_get (colors palette) pants_highlight = Inr pants_hl"
    and so: "list_get (colors palette) shoes_base = Inr shoes"
    and u: "is_uint8_color cb" "is_uint8_color cs" "is_uint8_color pants_hl" "is_uint8_color shoes"
    and off: "offset = - 1 \<or> offset = 0 \<or> offset = 1"
  shows "\<exists>fr'.
        bind_error (draw_rect_with_shading F palette 6 (11 + offset) 1 4
                      pants_base pants_shadow pants_highlight) (\<lambda>frame.
        bind_error (draw_rect_with_shading frame palette 9 (11 - offset) 1 4
                      pants_base pants_shadow pants_highlight) (\<lambda>frame.
        bind_error (bind_error (list_get (colors palette) shoes_base)
                      (set_pixel_color frame palette 5 (11 + offset + 3))) (\<lambda>frame.
        bind_error (bind_error (list_get (colors palette) shoes_base)
                      (set_pixel_color frame palette 6 (11 + offset + 3))) (\<lambda>frame.
        bind_error (bind_error (list_get (colors palette) shoes_base)
                      (set_pixel_color frame palette 9 (11 - offset + 3))) (\<lambda>frame.
        bind_error (list_get (colors palette) shoes_base)
          (set_pixel_color frame palette 10 (11 - offset + 3))))))) = Inr fr'
      \<and> cells fr' (nat (11 + offset)) 6 = rgba pants_hl
      \<and> cells fr' (nat (11 + offset) + 1) 6 = rgba pants_hl
      \<and> cells fr' (nat (11 + offset) + 2) 6 = rgba pants_hl
      \<and> cells fr' (nat (11 + offset) + 3) 5 = rgba shoes
      \<and> cells fr' (nat (11 + offset) + 3) 6 = rgba shoes
      \<and> cells fr' (nat (11 - offset)) 9 = rgba pants_hl
      \<and> cells fr' (nat (11 - offset) + 1) 9 = rgba pants_hl
      \<and> cells fr' (nat (11 - offset) + 2) 9 = rgba pants_hl
      \<and> cells fr' (nat (11 - offset) + 3) 9 = rgba shoes
      \<and> cells fr' (nat (11 - offset) + 3) 10 = rgba shoes"
proof -
  note ev = draw_rect_paint [OF pb ps ph u(1-3)] so
    set_pixel_color_paint [where col = "\<lambda>_ _. shoes", OF refl u(4)]
    paint_cells rect_col_def sh
  from off show ?thesis
  proof (elim disjE)
    assume "offset = - 1"
    then show ?thesis by (simp add: ev)
  next
    assume "offset = 0"
    then show ?thesis by (simp add: ev)
  next
    assume "offset = 1"
    then show ?thesis by (simp add: ev)
  qed
qed

lemma draw_legendary_character_legs:
  assumes sh: "shape0 frame = 16" "shape1 frame = 16"
    and len: "14 \<le> length cols"
    and ok: "list_all (\<lambda>i. \<exists>c. list_get (colors palette) i = Inr c \<and> is_uint8_color c) (take 14 cols)"
    and ph: "list_get (colors palette) (cols ! 11) = Inr pants_hl"
    and so: "list_get (colors palette) (cols ! 12) = Inr shoes"
    and off: "offset = - 1 \<or> offset = 0 \<or> offset = 1"
  shows "\<exists>fr'. draw_legendary_character frame palette direction offset cols = Inr fr'
      \<and> cells fr' (nat (11 + offset)) 6 = rgba pants_hl
      \<and> cells fr' (nat (11 + offset) + 1) 6 = rgba pants_hl
      \<and> cells fr' (nat (11 + offset) + 2) 6 = rgba pants_hl
      \<and> cells fr' (nat (11 + offset) + 3) 5 = rgba shoes
      \<and> cells fr' (nat (11 + offset) + 3) 6 = rgba shoes
      \<and> cells fr' (nat (11 - offset)) 9 = rgba pants_hl
      \<and> cells fr' (nat (11 - offset) + 1) 9 = rgba pants_hl
      \<and> cells fr' (nat (11 - offset) + 2) 9 = rgba pants_hl
      \<and> cells fr' (nat (11 - offset) + 3) 9 = rgba shoes
      \<and> cells fr' (nat (11 - offset) + 3) 10 = rgba shoes"
proof -
  have lk: "\<exists>c. list_get (colors palette) (cols ! k) = Inr c \<and> is_uint8_color c" if "k < 14" for k
  proof -
    from that len have "k < length (take 14 cols)" by simp
    with ok have "\<exists>c. list_get (colors palette) (take 14 cols ! k) = Inr c \<and> is_uint8_color c"
      by (simp add: list_all_length)
    with that show ?thesis by simp
  qed
  obtain c0 c1 c2 c3 c4 c5 c6 c7 c8 c9 c10 c13 where
    c: "list_get (colors palette) (cols ! 0) = Inr c0" "list_get (colors palette) (cols ! 1) = Inr c1"
       "list_get (colors palette) (cols ! 2) = Inr c2" "list_get (colors palette) (cols ! 3) = Inr c3"
       "list_get (colors palette) (cols ! 4) = Inr c4" "list_get (colors palette) (cols ! 5) = Inr c5"
       "list_get (colors palette) (cols ! 6) = Inr c6" "list_get (colors palette) (cols ! 7) = Inr c7"
       "list_get (colors palette) (cols ! 8) = Inr c8" "list_get (colors palette) (cols ! 9) = Inr c9"
       "list_get (colors palette) (cols ! 10) = Inr c10" "list_get (colors palette) (cols ! 13) = Inr c13"
    and u: "is_uint8_color c0" "is_uint8_color c1" "is_uint8_color c2" "is_uint8_color c3"
       "is_uint8_color c4" "is_uint8_color c5" "is_uint8_color c6" "is_uint8_color c7"
       "is_uint8_color c8" "is_uint8_color c9" "is_uint8_color c10" "is_uint8_color c13"
    using lk [of 0] lk [of 1] lk [of 2] lk [of 3] lk [of 4] lk [of 5] lk [of 6] lk [of 7]
      lk [of 8] lk [of 9] lk [of 10] lk [of 13]
    by (auto simp del: One_nat_def)
  from lk [of 11] ph have uph: "is_uint8_color pants_hl" by auto
  from lk [of 12] so have uso: "is_uint8_color shoes" by auto
  have nl: "\<not> length cols < 14" using len by simp
  have "keeps_shape frame
          (draw_circle_with_shading frame palette 8 (2 + 2) 3 (cols ! 0) (cols ! 1) (cols ! 2))"
    by (rule draw_circle_keeps_shape [OF _ c(1) c(2) c(3) u(1) u(2) u(3)]) simp
  then obtain f1 where f1: "draw_circle_with_shading frame palette 8 (2 + 2) 3 (cols ! 0) (cols ! 1) (cols ! 2) = Inr f1"
    and s1: "shape0 f1 = 16" "shape1 f1 = 16"
    using sh by (auto elim: keeps_shapeE)
  have "keeps_shape f1 (if direction \<noteq> North
                    then draw_hair_front f1 palette 8 2 direction (cols ! 3) (cols ! 4) (cols ! 5)
                    else draw_hair_back f1 palette 8 2 (cols ! 3) (cols ! 4) (cols ! 5))"
    using draw_hair_front_keeps_shape [OF c(4) c(5) c(6) u(4) u(5) u(6)]
      draw_hair_back_keeps_shape [OF c(4) u(4)]
    by simp
  then obtain f2 where f2: "(if direction \<noteq> North
                    then draw_hair_front f1 palette 8 2 direction (cols ! 3) (cols ! 4) (cols ! 5)
                    else draw_hair_back f1 palette 8 2 (cols ! 3) (cols ! 4) (cols ! 5)) = Inr f2"
    and s2: "shape0 f2 = 16" "shape1 f2 = 16"
    using s1 by (auto elim: keeps_shapeE)
  have "keeps_shape f2 (if direction = South
                    then bind_error (set_pixel_safe f2 palette 7 (2 + 2) 0 0 0 255)
                           (\<lambda>frame. set_pixel_safe frame palette 9 (2 + 2) 0 0 0 255)
                    else if direction = West
                    then set_pixel_safe f2 palette 7 (2 + 2) 0 0 0 255
                    else if direction = East
                    then set_pixel_safe f2 palette 9 (2 + 2) 0 0 0 255
                    else Inr f2)"
    by (auto intro!: keeps_shape_bind set_pixel_safe_black_keeps_shape keeps_shape_refl)
  then obtain f3 where f3: "(if direction = South
                    then bind_error (set_pixel_safe f2 palette 7 (2 + 2) 0 0 0 255)
                           (\<lambda>frame. set_pixel_safe frame palette 9 (2 + 2) 0 0 0 255)
                    else if direction = West
                    then set_pixel_safe f2 palette 7 (2 + 2) 0 0 0 255
                    else if direction = East
                    then set_pixel_safe f2 palette 9 (2 + 2) 0 0 0 255
                    else Inr f2) = Inr f3"
    and s3: "shape0 f3 = 16" "shape1 f3 = 16"
    using s2 by (auto elim: keeps_shapeE)
  have "keeps_shape f3 (draw_rect_with_shading f3 palette 6 6 4 5 (cols ! 6) (cols ! 7) (cols ! 8))"
    by (rule draw_rect_keeps_shape [OF c(7) c(8) c(9) u(7) u(8) u(9)])
  then obtain f4 where f4: "draw_rect_with_shading f3 palette 6 6 4 5 (cols ! 6) (cols ! 7) (cols ! 8) = Inr f4"
    and s4: "shape0 f4 = 16" "shape1 f4 = 16"
    using s3 by (auto elim: keeps_shapeE)
  have "keeps_shape f4 (draw_rect_with_shading f4 palette 7 6 2 1 (cols ! 13) (cols ! 7) (cols ! 8))"
    by (rule draw_rect_keeps_shape [OF c(12) c(8) c(9) u(12) u(8) u(9)])
  then obtain f5 where f5: "draw_rect_with_shading f4 palette 7 6 2 1 (cols ! 13) (cols ! 7) (cols ! 8) = Inr f5"
    and s5: "shape0 f5 = 16" "shape1 f5 = 16"
    using s4 by (auto elim: keeps_shapeE)
  have "keeps_shape f5 (if direction \<noteq> West
                    then draw_rect_with_shading f5 palette 10 (6 + 1) 1 3 (cols ! 6) (cols ! 7) (cols ! 8)
                    else Inr f5)"
    using draw_rect_keeps_shape [OF c(7) c(8) c(9) u(7) u(8) u(9)] by (simp add: keeps_shape_refl)
  then obtain f6 where f6: "(if direction \<noteq> West
                    then draw_rect_with_shading f5 palette 10 (6 + 1) 1 3 (cols ! 6) (cols ! 7) (cols ! 8)
                    else Inr f5) = Inr f6"
    and s6: "shape0 f6 = 16" "shape1 f6 = 16"
    using s5 by (auto elim: keeps_shapeE)
  have "keeps_shape f6 (if direction \<noteq> East
                    then draw_rect_with_shading f6 palette 5 (6 + 1) 1 3 (cols ! 6) (cols ! 7) (cols ! 8)
                    else Inr f6)"
    using draw_rect_keeps_shape [OF c(7) c(8) c(9) u(7) u(8) u(9)] by (simp add: keeps_shape_refl)
  then obtain f7 where f7: "(if direction \<noteq> East
                    then draw_rect_with_shading f6 palette 5 (6 + 1) 1 3 (cols ! 6) (cols ! 7) (cols ! 8)
                    else Inr f6) = Inr f7"
    and s7: "shape0 f7 = 16" "shape1 f7 = 16"
    using s6 by (auto elim: keeps_shapeE)
  have "draw_legendary_character frame palette direction offset cols =
        bind_error (draw_rect_with_shading f7 palette 6 (11 + offset) 1 4
                      (cols ! 9) (cols ! 10) (cols ! 11)) (\<lambda>frame.
        bind_error (draw_rect_with_shading frame palette 9 (11 - offset) 1 4
                      (cols ! 9) (cols ! 10) (cols ! 11)) (\<lambda>frame.
        bind_error (bind_error (list_get (colors palette) (cols ! 12))
                      (set_pixel_color frame palette 5 (11 + offset + 3))) (\<lambda>frame.
        bind_error (bind_error (list_get (colors palette) (cols ! 12))
                      (set_pixel_color frame palette 6 (11 + offset + 3))) (\<lambda>frame.
        bind_error (bind_error (list_get (colors palette) (cols ! 12))
                      (set_pixel_color frame palette 9 (11 - offset + 3))) (\<lambda>frame.
        bind_error (list_get (colors palette) (cols ! 12))
          (set_pixel_color frame palette 10 (11 - offset + 3)))))))"
    unfolding draw_legendary_character_def Let_def if_not_P [OF nl]
      f1 bind_error_Inr f2 f3 f4 f5 f6 f7 ..
  with legs_and_shoes [OF s7 c(10) c(11) ph so u(10) u(11) uph uso off]
  show ?thesis by simp
qed

section \<open>The comparisons with 0.3\<close>

lemma div_gt_0_3_int:
  assumes "0 < d"
  shows "div_gt_0_3 n d \<longleftrightarrow> 10808639105689191 * d \<le> n * 2 ^ 55"
proof -
  have "div_gt_0_3 n d \<longleftrightarrow> 10808639105689191 * real_of_int d \<le> real_of_int n * 2 ^ 55"
    using assms by (simp add: div_gt_0_3_def midpoint_0_3_def field_simps)
  also have "\<dots> \<longleftrightarrow> real_of_int (10808639105689191 * d) \<le> real_of_int (n * 2 ^ 55)"
    by simp
  also have "\<dots> \<longleftrightarrow> 10808639105689191 * d \<le> n * 2 ^ 55"
    by (rule of_int_le_iff)
  finally show ?thesis .
qed

text \<open>
  For a divisor \<open>2 * r\<close> with \<open>r\<close> up to \<open>6 * 10 ^ 15\<close> no quotient of integers lies
  strictly between three tenths and the midpoint: a quotient above three tenths has
  \<open>10 * n - 6 * r\<close> positive and even, so at least 2, and \<open>2 * 2 ^ 55\<close> is at least
  \<open>12 * r\<close>. So the comparison of the floats is the comparison of the exact quotient with
  three tenths.
\<close>

lemma div_gt_0_3_exact:
  assumes "0 < r" and "r \<le> 6000000000000000"
  shows "div_gt_0_3 n (r * 2) \<longleftrightarrow> 0.3 < real_of_int n / real_of_int (r * 2)"
proof -
  have pos: "0 < r * 2" using assms(1) by simp
  have "0.3 < real_of_int n / real_of_int (r * 2)
          \<longleftrightarrow> 3 * real_of_int (r * 2) < 10 * real_of_int n"
    using pos by (simp add: field_simps)
  also have "\<dots> \<longleftrightarrow> real_of_int (3 * (r * 2)) < real_of_int (10 * n)"
    by simp
  also have "\<dots> \<longleftrightarrow> 3 * (r * 2) < 10 * n"
    by (rule of_int_less_iff)
  also have "\<dots> \<longleftrightarrow> 3 * r + 1 \<le> 5 * n"
    by auto
  also have "\<dots> \<longleftrightarrow> 10808639105689191 * (r * 2) \<le> n * 2 ^ 55"
    using assms by auto
  finally show ?thesis
    by (simp add: div_gt_0_3_int [OF pos])
qed

lemma div_lt_minus_0_3_neg: "div_lt_minus_0_3 n d \<longleftrightarrow> div_gt_0_3 (- n) d"
  by (auto simp: div_lt_minus_0_3_def div_gt_0_3_def)

lemma div_lt_minus_0_3_exact:
  assumes "0 < r" and "r \<le> 6000000000000000"
  shows "div_lt_minus_0_3 n (r * 2) \<longleftrightarrow> real_of_int n / real_of_int (r * 2) < - 0.3"
proof -
  have "div_lt_minus_0_3 n (r * 2) \<longleftrightarrow> 0.3 < real_of_int (- n) / real_of_int (r * 2)"
    unfolding div_lt_minus_0_3_neg by (rule div_gt_0_3_exact [OF assms])
  also have "real_of_int (- n) / real_of_int (r * 2) = - (real_of_int n / real_of_int (r * 2))"
    by simp
  also have "0.3 < - (real_of_int n / real_of_int (r * 2))
               \<longleftrightarrow> real_of_int n / real_of_int (r * 2) < - 0.3"
    by auto
  finally show ?thesis .
qed

section \<open>The drawing claims\<close>

text \<open>
  Claim C4. A call of \<open>set_pixel_safe\<close> with \<open>x\<close> outside \<open>[0, shape1)\<close> or \<open>y\<close>
  outside \<open>[0, shape0)\<close> returns without an exception and with the frame as it was,
  whatever the four values are. A call with both coordinates in range and four bytes returns
  a frame of the same shape in which the cell \<open>(y, x)\<close> holds \<open>(r, g, b, a)\<close> and every
  other cell is as it was.
\<close>

theorem set_pixel_safe_bounds:
  "(\<not> ((0 \<le> x \<and> x < int (shape1 frame)) \<and> (0 \<le> y \<and> y < int (shape0 frame))) \<longrightarrow>
      set_pixel_safe frame palette x y r g b a = Inr frame)
   \<and> ((0 \<le> x \<and> x < int (shape1 frame)) \<and> (0 \<le> y \<and> y < int (shape0 frame))
        \<and> is_uint8 r \<and> is_uint8 g \<and> is_uint8 b \<and> is_uint8 a \<longrightarrow>
        (\<exists>fr'. set_pixel_safe frame palette x y r g b a = Inr fr'
           \<and> shape0 fr' = shape0 frame
           \<and> shape1 fr' = shape1 frame
           \<and> cells fr' (nat y) (nat x) = (r, g, b, a)
           \<and> (\<forall>y' x'. (y', x') \<noteq> (nat y, nat x) \<longrightarrow> cells fr' y' x' = cells frame y' x')))"
  by (auto simp: set_pixel_safe_def setitem_def)

text \<open>
  A write at column 16 and one at column -1 of a 16 by 16 frame change nothing; a write
  at column 15 of row 3 sets that cell and not its neighbour.
\<close>

theorem set_pixel_safe_bounds_witness:
  "\<not> ((0 \<le> (16::int) \<and> (16::int) < int (shape1 (zeros 16 16))) \<and> (0 \<le> (3::int) \<and> (3::int) < int (shape0 (zeros 16 16))))
   \<and> set_pixel_safe (zeros 16 16) (RetroColorPalette_init ''p'') 16 3 255 0 0 255 = Inr (zeros 16 16)
   \<and> set_pixel_safe (zeros 16 16) (RetroColorPalette_init ''p'') (- 1) 3 255 0 0 255 = Inr (zeros 16 16)
   \<and> ((0 \<le> (15::int) \<and> (15::int) < int (shape1 (zeros 16 16))) \<and> (0 \<le> (3::int) \<and> (3::int) < int (shape0 (zeros 16 16))))
   \<and> is_uint8 255 \<and> is_uint8 0
   \<and> (\<exists>fr'. set_pixel_safe (zeros 16 16) (RetroColorPalette_init ''p'') 15 3 255 0 0 255 = Inr fr'
        \<and> shape0 fr' = 16 \<and> shape1 fr' = 16
        \<and> cells fr' 3 15 = (255, 0, 0, 255)
        \<and> cells fr' 3 14 = (0, 0, 0, 0))"
proof -
  have s: "shape0 (zeros 16 16) = 16" "shape1 (zeros 16 16) = 16" by (simp_all add: zeros_def)
  have z: "cells (zeros 16 16) 3 14 = (0, 0, 0, 0)" by (simp add: zeros_def)
  have u: "is_uint8 255" "is_uint8 0" by (simp_all add: is_uint8_def)
  from set_pixel_safe_bounds [where x = 16 and frame = "zeros 16 16" and y = 3
      and palette = "RetroColorPalette_init ''p''" and r = 255 and g = 0 and b = 0 and a = 255]
  have a: "set_pixel_safe (zeros 16 16) (RetroColorPalette_init ''p'') 16 3 255 0 0 255 = Inr (zeros 16 16)"
    by (simp add: s)
  from set_pixel_safe_bounds [where x = "- 1" and frame = "zeros 16 16" and y = 3
      and palette = "RetroColorPalette_init ''p''" and r = 255 and g = 0 and b = 0 and a = 255]
  have b: "set_pixel_safe (zeros 16 16) (RetroColorPalette_init ''p'') (- 1) 3 255 0 0 255 = Inr (zeros 16 16)"
    by (simp add: s)
  from set_pixel_safe_bounds [where x = 15 and frame = "zeros 16 16" and y = 3
      and palette = "RetroColorPalette_init ''p''" and r = 255 and g = 0 and b = 0 and a = 255] u
  obtain fr' where c: "set_pixel_safe (zeros 16 16) (RetroColorPalette_init ''p'') 15 3 255 0 0 255 = Inr fr'"
    "shape0 fr' = 16" "shape1 fr' = 16" "cells fr' 3 15 = (255, 0, 0, 255)"
    and d: "\<forall>y' x'. (y', x') \<noteq> (3, 15) \<longrightarrow> cells fr' y' x' = cells (zeros 16 16) y' x'"
    by (auto simp: s)
  from d have "cells fr' 3 14 = cells (zeros 16 16) 3 14" by simp
  with a b c z u show ?thesis by (simp add: s)
qed

text \<open>
  Claim C7. With the three palette indices in range and naming colours whose channels are
  bytes, \<open>draw_rect_with_shading\<close> returns a frame of the same shape in which every cell
  of the rectangle that lies inside the frame holds the highlight colour on the top row and
  the left column, otherwise the shadow colour on the bottom row and the right column,
  otherwise the base colour; every other cell is as before.
\<close>

theorem draw_rect_with_shading_bevel:
  assumes "list_get (colors palette) base_color = Inr cb"
    and "list_get (colors palette) shadow_color = Inr cs"
    and "list_get (colors palette) highlight_color = Inr ch"
    and "is_uint8_color cb" and "is_uint8_color cs" and "is_uint8_color ch"
  shows "\<exists>fr'. draw_rect_with_shading frame palette x y width height
                 base_color shadow_color highlight_color = Inr fr'
           \<and> shape0 fr' = shape0 frame \<and> shape1 fr' = shape1 frame
           \<and> (\<forall>py px. cells fr' py px =
                 (if px < shape1 frame \<and> py < shape0 frame
                     \<and> x \<le> int px \<and> int px < x + width \<and> y \<le> int py \<and> int py < y + height
                  then (if int px = x \<or> int py = y then rgba ch
                        else if int px = x + width - 1 \<or> int py = y + height - 1 then rgba cs
                        else rgba cb)
                  else cells frame py px))"
proof -
  let ?S = "{(px, py). y \<le> py \<and> py < min (int (shape0 frame)) (y + height)
                            \<and> x \<le> px \<and> px < min (int (shape1 frame)) (x + width)}"
  let ?fr = "paint frame ?S (rect_col x y width height cb cs ch)"
  have "draw_rect_with_shading frame palette x y width height
                 base_color shadow_color highlight_color = Inr ?fr"
    by (rule draw_rect_paint [OF assms])
  moreover have "\<forall>py px. cells ?fr py px =
                 (if px < shape1 frame \<and> py < shape0 frame
                     \<and> x \<le> int px \<and> int px < x + width \<and> y \<le> int py \<and> int py < y + height
                  then (if int px = x \<or> int py = y then rgba ch
                        else if int px = x + width - 1 \<or> int py = y + height - 1 then rgba cs
                        else rgba cb)
                  else cells frame py px)"
    by (auto simp: paint_cells rect_col_def)
  ultimately show ?thesis by (intro exI [of _ ?fr]) simp
qed

text \<open>
  The jacket rectangle of the player sprite, 4 by 5 at \<open>(6, 6)\<close>: a corner of each
  kind, an interior cell and a cell above the rectangle.
\<close>

theorem draw_rect_with_shading_bevel_witness:
  "list_get (colors \<lparr>name = ''p'', colors = [(0, 0, 0), (72, 112, 168), (48, 80, 120), (96, 144, 200)]\<rparr>) 1
      = Inr (72, 112, 168)
   \<and> list_get (colors \<lparr>name = ''p'', colors = [(0, 0, 0), (72, 112, 168), (48, 80, 120), (96, 144, 200)]\<rparr>) 2
      = Inr (48, 80, 120)
   \<and> list_get (colors \<lparr>name = ''p'', colors = [(0, 0, 0), (72, 112, 168), (48, 80, 120), (96, 144, 200)]\<rparr>) 3
      = Inr (96, 144, 200)
   \<and> is_uint8_color (72, 112, 168) \<and> is_uint8_color (48, 80, 120) \<and> is_uint8_color (96, 144, 200)
   \<and> (\<exists>fr'. draw_rect_with_shading (zeros 16 16)
              \<lparr>name = ''p'', colors = [(0, 0, 0), (72, 112, 168), (48, 80, 120), (96, 144, 200)]\<rparr>
              6 6 4 5 1 2 3 = Inr fr'
        \<and> cells fr' 6 6 = (96, 144, 200, 255)
        \<and> cells fr' 10 9 = (48, 80, 120, 255)
        \<and> cells fr' 8 8 = (72, 112, 168, 255)
        \<and> cells fr' 5 6 = (0, 0, 0, 0))"
proof -
  let ?p = "\<lparr>name = ''p'', colors = [(0, 0, 0), (72, 112, 168), (48, 80, 120), (96, 144, 200)]\<rparr>"
  have b: "list_get (colors ?p) 1 = Inr (72, 112, 168)"
    and s: "list_get (colors ?p) 2 = Inr (48, 80, 120)"
    and h: "list_get (colors ?p) 3 = Inr (96, 144, 200)"
    by (simp_all add: list_get_eval)
  have u: "is_uint8_color (72, 112, 168)" "is_uint8_color (48, 80, 120)"
    "is_uint8_color (96, 144, 200)"
    by (simp_all add: is_uint8_color_def is_uint8_def)
  from draw_rect_with_shading_bevel [OF b s h u, of "zeros 16 16" 6 6 4 5]
  obtain fr' where d: "draw_rect_with_shading (zeros 16 16) ?p 6 6 4 5 1 2 3 = Inr fr'"
    and c: "\<forall>py px. cells fr' py px =
                 (if px < shape1 (zeros 16 16) \<and> py < shape0 (zeros 16 16)
                     \<and> 6 \<le> int px \<and> int px < 6 + 4 \<and> 6 \<le> int py \<and> int py < 6 + 5
                  then (if int px = 6 \<or> int py = 6 then rgba (96, 144, 200)
                        else if int px = 6 + 4 - 1 \<or> int py = 6 + 5 - 1 then rgba (48, 80, 120)
                        else rgba (72, 112, 168))
                  else cells (zeros 16 16) py px)"
    by blast
  have "cells fr' 6 6 = (96, 144, 200, 255)" "cells fr' 10 9 = (48, 80, 120, 255)"
    "cells fr' 8 8 = (72, 112, 168, 255)" "cells fr' 5 6 = (0, 0, 0, 0)"
    by (simp_all add: c zeros_def rgba_def)
  with b s h u d show ?thesis by blast
qed

text \<open>
  Claim C9. With the three palette indices in range and naming colours whose channels are
  bytes, \<open>draw_brick_wall\<close> returns a frame of the same shape in which the cell at
  \<open>(x, y)\<close> with \<open>x, y < 16\<close> (inside the frame) holds the dark colour if
  \<open>y mod 4 = 3\<close>, or the brick row \<open>y div 4\<close> is even and \<open>x mod 8 = 7\<close>, or the brick
  row is odd and \<open>x mod 8 = 3\<close>; otherwise the light colour if \<open>x mod 8 = 0\<close> on an even
  brick row or \<open>x mod 8 = 4\<close> on an odd one; otherwise the base colour.
\<close>

theorem draw_brick_wall_pattern:
  assumes "list_get (colors palette) base = Inr base_color"
    and "list_get (colors palette) dark = Inr dark_color"
    and "list_get (colors palette) light = Inr light_color"
    and "is_uint8_color base_color" and "is_uint8_color dark_color"
    and "is_uint8_color light_color"
  shows "\<exists>fr'. draw_brick_wall frame palette base dark light = Inr fr'
           \<and> shape0 fr' = shape0 frame \<and> shape1 fr' = shape1 frame
           \<and> (\<forall>y x. cells fr' y x =
                 (if x < 16 \<and> y < 16 \<and> x < shape1 frame \<and> y < shape0 frame
                  then (if int y mod 4 = 3 \<or> ((int y div 4) mod 2 = 0 \<and> int x mod 8 = 7)
                             \<or> ((int y div 4) mod 2 = 1 \<and> int x mod 8 = 3)
                        then rgba dark_color
                        else if (int x mod 8 = 0 \<and> (int y div 4) mod 2 = 0)
                                  \<or> (int x mod 8 = 4 \<and> (int y div 4) mod 2 = 1)
                        then rgba light_color
                        else rgba base_color)
                  else cells frame y x))"
proof -
  let ?S = "{(x, y). 0 \<le> y \<and> y < 16 \<and> 0 \<le> x \<and> x < (16::int)}"
  let ?fr = "paint frame ?S (brick_color base_color dark_color light_color)"
  have "draw_brick_wall frame palette base dark light = Inr ?fr"
    by (rule draw_brick_paint [OF assms])
  moreover have "\<forall>y x. cells ?fr y x =
                 (if x < 16 \<and> y < 16 \<and> x < shape1 frame \<and> y < shape0 frame
                  then (if int y mod 4 = 3 \<or> ((int y div 4) mod 2 = 0 \<and> int x mod 8 = 7)
                             \<or> ((int y div 4) mod 2 = 1 \<and> int x mod 8 = 3)
                        then rgba dark_color
                        else if (int x mod 8 = 0 \<and> (int y div 4) mod 2 = 0)
                                  \<or> (int x mod 8 = 4 \<and> (int y div 4) mod 2 = 1)
                        then rgba light_color
                        else rgba base_color)
                  else cells frame y x)"
    by (simp add: paint_cells brick_color_def)
  ultimately show ?thesis by (intro exI [of _ ?fr]) simp
qed

text \<open>
  Seven cells of the brick tile, among them \<open>(7, 0)\<close> and \<open>(3, 4)\<close> on the vertical
  mortar lines of an even and an odd brick row, and \<open>(7, 4)\<close>, which is mortar on an even
  brick row only.
\<close>

theorem draw_brick_wall_pattern_witness:
  "list_get (colors \<lparr>name = ''p'', colors = [(0, 0, 0), (176, 96, 80), (136, 64, 48), (216, 136, 120)]\<rparr>) 1
      = Inr (176, 96, 80)
   \<and> list_get (colors \<lparr>name = ''p'', colors = [(0, 0, 0), (176, 96, 80), (136, 64, 48), (216, 136, 120)]\<rparr>) 2
      = Inr (136, 64, 48)
   \<and> list_get (colors \<lparr>name = ''p'', colors = [(0, 0, 0), (176, 96, 80), (136, 64, 48), (216, 136, 120)]\<rparr>) 3
      = Inr (216, 136, 120)
   \<and> is_uint8_color (176, 96, 80) \<and> is_uint8_color (136, 64, 48) \<and> is_uint8_color (216, 136, 120)
   \<and> (\<exists>fr'. draw_brick_wall (zeros 16 16)
              \<lparr>name = ''p'', colors = [(0, 0, 0), (176, 96, 80), (136, 64, 48), (216, 136, 120)]\<rparr>
              1 2 3 = Inr fr'
        \<and> cells fr' 0 7 = (136, 64, 48, 255)
        \<and> cells fr' 0 0 = (216, 136, 120, 255)
        \<and> cells fr' 0 1 = (176, 96, 80, 255)
        \<and> cells fr' 3 0 = (136, 64, 48, 255)
        \<and> cells fr' 4 3 = (136, 64, 48, 255)
        \<and> cells fr' 4 4 = (216, 136, 120, 255)
        \<and> cells fr' 4 7 = (176, 96, 80, 255))"
proof -
  let ?p = "\<lparr>name = ''p'', colors = [(0, 0, 0), (176, 96, 80), (136, 64, 48), (216, 136, 120)]\<rparr>"
  have b: "list_get (colors ?p) 1 = Inr (176, 96, 80)"
    and s: "list_get (colors ?p) 2 = Inr (136, 64, 48)"
    and h: "list_get (colors ?p) 3 = Inr (216, 136, 120)"
    by (simp_all add: list_get_eval)
  have u: "is_uint8_color (176, 96, 80)" "is_uint8_color (136, 64, 48)"
    "is_uint8_color (216, 136, 120)"
    by (simp_all add: is_uint8_color_def is_uint8_def)
  from draw_brick_wall_pattern [OF b s h u, of "zeros 16 16"]
  obtain fr' where d: "draw_brick_wall (zeros 16 16) ?p 1 2 3 = Inr fr'"
    and c: "\<forall>y x. cells fr' y x =
                 (if x < 16 \<and> y < 16 \<and> x < shape1 (zeros 16 16) \<and> y < shape0 (zeros 16 16)
                  then (if int y mod 4 = 3 \<or> ((int y div 4) mod 2 = 0 \<and> int x mod 8 = 7)
                             \<or> ((int y div 4) mod 2 = 1 \<and> int x mod 8 = 3)
                        then rgba (136, 64, 48)
                        else if (int x mod 8 = 0 \<and> (int y div 4) mod 2 = 0)
                                  \<or> (int x mod 8 = 4 \<and> (int y div 4) mod 2 = 1)
                        then rgba (216, 136, 120)
                        else rgba (176, 96, 80))
                  else cells (zeros 16 16) y x)"
    by blast
  have "cells fr' 0 7 = (136, 64, 48, 255)" "cells fr' 0 0 = (216, 136, 120, 255)"
    "cells fr' 0 1 = (176, 96, 80, 255)" "cells fr' 3 0 = (136, 64, 48, 255)"
    "cells fr' 4 3 = (136, 64, 48, 255)" "cells fr' 4 4 = (216, 136, 120, 255)"
    "cells fr' 4 7 = (176, 96, 80, 255)"
    by (simp_all add: c zeros_def rgba_def)
  with b s h u d show ?thesis by blast
qed

text \<open>
  Claim C6, for a radius from 1 to \<open>6 * 10 ^ 15\<close>. With the three palette indices in range
  and naming colours whose channels are bytes, \<open>draw_circle_with_shading\<close> returns a frame
  of the same shape in which every cell inside the frame at squared distance at most
  \<open>radius\<^sup>2\<close> from the centre holds the highlight colour when
  \<open>(-dx - dy) / (2 * radius) > 0.3\<close>, the shadow colour when that quotient is below
  \<open>-0.3\<close>, and the base colour otherwise, the quotient and the two bounds being the
  exact rational numbers; every other cell is as before.
\<close>

theorem draw_circle_with_shading_tones:
  assumes "0 < radius" and "radius \<le> 6000000000000000"
    and "list_get (colors palette) base_color = Inr cb"
    and "list_get (colors palette) shadow_color = Inr cs"
    and "list_get (colors palette) highlight_color = Inr ch"
    and "is_uint8_color cb" and "is_uint8_color cs" and "is_uint8_color ch"
  shows "\<exists>fr'. draw_circle_with_shading frame palette cx cy radius
                 base_color shadow_color highlight_color = Inr fr'
           \<and> shape0 fr' = shape0 frame \<and> shape1 fr' = shape1 frame
           \<and> (\<forall>y x. cells fr' y x =
                 (if x < shape1 frame \<and> y < shape0 frame
                     \<and> (int x - cx)\<^sup>2 + (int y - cy)\<^sup>2 \<le> radius\<^sup>2
                  then (if real_of_int (- (int x - cx) - (int y - cy)) / real_of_int (2 * radius) > 0.3
                        then rgba ch
                        else if real_of_int (- (int x - cx) - (int y - cy)) / real_of_int (2 * radius) < - 0.3
                        then rgba cs
                        else rgba cb)
                  else cells frame y x))"
proof -
  let ?S = "{(x, y). max 0 (cy - radius) \<le> y \<and> y < min (int (shape0 frame)) (cy + radius + 1)
                          \<and> max 0 (cx - radius) \<le> x \<and> x < min (int (shape1 frame)) (cx + radius + 1)
                          \<and> (x - cx) * (x - cx) + (y - cy) * (y - cy) \<le> radius * radius}"
  let ?fr = "paint frame ?S (circle_col cx cy radius cb cs ch)"
  have nz: "radius \<noteq> 0" using assms(1) by simp
  have d: "draw_circle_with_shading frame palette cx cy radius
                 base_color shadow_color highlight_color = Inr ?fr"
    by (rule draw_circle_paint [OF nz assms(3-8)])
  have mem: "(int x, int y) \<in> ?S \<and> x < shape1 frame \<and> y < shape0 frame
         \<longleftrightarrow> x < shape1 frame \<and> y < shape0 frame
               \<and> (int x - cx)\<^sup>2 + (int y - cy)\<^sup>2 \<le> radius\<^sup>2" for x y
  proof (cases "(int x - cx) * (int x - cx) + (int y - cy) * (int y - cy) \<le> radius * radius")
    case True
    from disc_in_box [OF True assms(1)] True show ?thesis
      by (auto simp: power2_eq_square)
  next
    case False
    then show ?thesis by (simp add: power2_eq_square)
  qed
  have c: "cells ?fr y x =
                 (if x < shape1 frame \<and> y < shape0 frame
                     \<and> (int x - cx)\<^sup>2 + (int y - cy)\<^sup>2 \<le> radius\<^sup>2
                  then (if real_of_int (- (int x - cx) - (int y - cy)) / real_of_int (2 * radius) > 0.3
                        then rgba ch
                        else if real_of_int (- (int x - cx) - (int y - cy)) / real_of_int (2 * radius) < - 0.3
                        then rgba cs
                        else rgba cb)
                  else cells frame y x)" for y x
  proof -
    have "cells ?fr y x = (if (int x, int y) \<in> ?S \<and> x < shape1 frame \<and> y < shape0 frame
                           then rgba (circle_col cx cy radius cb cs ch (int x) (int y))
                           else cells frame y x)"
      by (rule paint_cells)
    also have "\<dots> = (if x < shape1 frame \<and> y < shape0 frame
                     \<and> (int x - cx)\<^sup>2 + (int y - cy)\<^sup>2 \<le> radius\<^sup>2
                    then rgba (circle_col cx cy radius cb cs ch (int x) (int y))
                    else cells frame y x)"
      using mem [of x y] by (simp only:)
    also have "rgba (circle_col cx cy radius cb cs ch (int x) (int y)) =
         (if real_of_int (- (int x - cx) - (int y - cy)) / real_of_int (2 * radius) > 0.3
                        then rgba ch
                        else if real_of_int (- (int x - cx) - (int y - cy)) / real_of_int (2 * radius) < - 0.3
                        then rgba cs
                        else rgba cb)"
      unfolding circle_col_def div_gt_0_3_exact [OF assms(1,2)]
        div_lt_minus_0_3_exact [OF assms(1,2)]
      by (simp add: mult.commute)
    finally show ?thesis .
  qed
  from d c show ?thesis by (intro exI [of _ ?fr]) simp
qed

text \<open>
  The head of the player sprite, radius 3 at \<open>(8, 4)\<close>: the centre, a cell towards the
  light, a cell away from it, and a cell outside the disc.
\<close>

theorem draw_circle_with_shading_tones_witness:
  "(0::int) < 3 \<and> (3::int) \<le> 6000000000000000
   \<and> list_get (colors \<lparr>name = ''p'', colors = [(0, 0, 0), (248, 216, 176), (208, 176, 136), (248, 240, 200)]\<rparr>) 1
      = Inr (248, 216, 176)
   \<and> list_get (colors \<lparr>name = ''p'', colors = [(0, 0, 0), (248, 216, 176), (208, 176, 136), (248, 240, 200)]\<rparr>) 2
      = Inr (208, 176, 136)
   \<and> list_get (colors \<lparr>name = ''p'', colors = [(0, 0, 0), (248, 216, 176), (208, 176, 136), (248, 240, 200)]\<rparr>) 3
      = Inr (248, 240, 200)
   \<and> is_uint8_color (248, 216, 176) \<and> is_uint8_color (208, 176, 136) \<and> is_uint8_color (248, 240, 200)
   \<and> (\<exists>fr'. draw_circle_with_shading (zeros 16 16)
              \<lparr>name = ''p'', colors = [(0, 0, 0), (248, 216, 176), (208, 176, 136), (248, 240, 200)]\<rparr>
              8 4 3 1 2 3 = Inr fr'
        \<and> cells fr' 4 8 = (248, 216, 176, 255)
        \<and> cells fr' 3 6 = (248, 240, 200, 255)
        \<and> cells fr' 5 10 = (208, 176, 136, 255)
        \<and> cells fr' 7 11 = (0, 0, 0, 0))"
proof -
  let ?p = "\<lparr>name = ''p'', colors = [(0, 0, 0), (248, 216, 176), (208, 176, 136), (248, 240, 200)]\<rparr>"
  have r: "(0::int) < 3" "(3::int) \<le> 6000000000000000" by simp_all
  have b: "list_get (colors ?p) 1 = Inr (248, 216, 176)"
    and s: "list_get (colors ?p) 2 = Inr (208, 176, 136)"
    and h: "list_get (colors ?p) 3 = Inr (248, 240, 200)"
    by (simp_all add: list_get_eval)
  have u: "is_uint8_color (248, 216, 176)" "is_uint8_color (208, 176, 136)"
    "is_uint8_color (248, 240, 200)"
    by (simp_all add: is_uint8_color_def is_uint8_def)
  from draw_circle_with_shading_tones [OF r b s h u, of "zeros 16 16" 8 4]
  obtain fr' where d: "draw_circle_with_shading (zeros 16 16) ?p 8 4 3 1 2 3 = Inr fr'"
    and c: "\<forall>y x. cells fr' y x =
                 (if x < shape1 (zeros 16 16) \<and> y < shape0 (zeros 16 16)
                     \<and> (int x - 8)\<^sup>2 + (int y - 4)\<^sup>2 \<le> 3\<^sup>2
                  then (if real_of_int (- (int x - 8) - (int y - 4)) / real_of_int (2 * 3) > 0.3
                        then rgba (248, 240, 200)
                        else if real_of_int (- (int x - 8) - (int y - 4)) / real_of_int (2 * 3) < - 0.3
                        then rgba (208, 176, 136)
                        else rgba (248, 216, 176))
                  else cells (zeros 16 16) y x)"
    by blast
  have "cells fr' 4 8 = (248, 216, 176, 255)" "cells fr' 3 6 = (248, 240, 200, 255)"
    "cells fr' 5 10 = (208, 176, 136, 255)" "cells fr' 7 11 = (0, 0, 0, 0)"
    by (simp_all add: c zeros_def rgba_def)
  with r b s h u d show ?thesis by blast
qed

text \<open>
  Claim C6 as stated fails outside these conditions. In each case the pixel in question is
  inside the frame, at squared distance at most \<open>radius\<^sup>2\<close> from the centre. With
  radius 0 the call raises ZeroDivisionError when it reaches the centre. With radius -1 both
  ranges are empty and the centre is left unpainted. With radius \<open>5 * 10 ^ 17\<close> and the
  centre at column \<open>3 * 10 ^ 17 + 1\<close>, on a frame of one pixel, the exact quotient is above
  three tenths but the double nearest to it is the double \<open>0.3\<close>: the call does what a
  write of the base colour does, which differs from a write of the highlight colour. The
  same happens with radius 6004799503160663 and the centre at column 3602879701896398, not
  far above the bound of the theorem. With a
  highlight index that is not a position of the palette the call raises IndexError at the
  first pixel towards the light, and with a highlight colour that has a channel of 296 the
  store of that pixel raises OverflowError.
\<close>

theorem draw_circle_with_shading_counterexample:
  "((8::int) - 8)\<^sup>2 + (4 - 4)\<^sup>2 \<le> 0\<^sup>2
   \<and> draw_circle_with_shading (zeros 16 16)
        \<lparr>name = ''p'', colors = [(0, 0, 0), (248, 216, 176), (208, 176, 136), (248, 240, 200)]\<rparr>
        8 4 0 1 2 3 = Inl ZeroDivisionError
   \<and> ((8::int) - 8)\<^sup>2 + (4 - 4)\<^sup>2 \<le> (- 1)\<^sup>2
   \<and> draw_circle_with_shading (zeros 16 16)
        \<lparr>name = ''p'', colors = [(0, 0, 0), (248, 216, 176), (208, 176, 136), (248, 240, 200)]\<rparr>
        8 4 (- 1) 1 2 3 = Inr (zeros 16 16)
   \<and> cells (zeros 16 16) 4 8 = (0, 0, 0, 0)
   \<and> ((0::int) - 300000000000000001)\<^sup>2 + (0 - 0)\<^sup>2 \<le> 500000000000000000\<^sup>2
   \<and> real_of_int (- (0 - 300000000000000001) - (0 - 0)) / real_of_int (2 * 500000000000000000) > 0.3
   \<and> draw_circle_with_shading (zeros 1 1)
        \<lparr>name = ''p'', colors = [(0, 0, 0), (248, 216, 176), (208, 176, 136), (248, 240, 200)]\<rparr>
        300000000000000001 0 500000000000000000 1 2 3
       = set_pixel_safe (zeros 1 1)
           \<lparr>name = ''p'', colors = [(0, 0, 0), (248, 216, 176), (208, 176, 136), (248, 240, 200)]\<rparr>
           0 0 248 216 176 255
   \<and> ((0::int) - 3602879701896398)\<^sup>2 + (0 - 0)\<^sup>2 \<le> 6004799503160663\<^sup>2
   \<and> real_of_int (- (0 - 3602879701896398) - (0 - 0)) / real_of_int (2 * 6004799503160663) > 0.3
   \<and> draw_circle_with_shading (zeros 1 1)
        \<lparr>name = ''p'', colors = [(0, 0, 0), (248, 216, 176), (208, 176, 136), (248, 240, 200)]\<rparr>
        3602879701896398 0 6004799503160663 1 2 3
       = set_pixel_safe (zeros 1 1)
           \<lparr>name = ''p'', colors = [(0, 0, 0), (248, 216, 176), (208, 176, 136), (248, 240, 200)]\<rparr>
           0 0 248 216 176 255
   \<and> set_pixel_safe (zeros 1 1)
        \<lparr>name = ''p'', colors = [(0, 0, 0), (248, 216, 176), (208, 176, 136), (248, 240, 200)]\<rparr>
        0 0 248 216 176 255
       \<noteq> set_pixel_safe (zeros 1 1)
           \<lparr>name = ''p'', colors = [(0, 0, 0), (248, 216, 176), (208, 176, 136), (248, 240, 200)]\<rparr>
           0 0 248 240 200 255
   \<and> draw_circle_with_shading (zeros 16 16)
        \<lparr>name = ''p'', colors = [(0, 0, 0), (248, 216, 176), (208, 176, 136), (248, 240, 200)]\<rparr>
        8 4 3 1 2 7 = Inl IndexError
   \<and> draw_circle_with_shading (zeros 16 16)
        \<lparr>name = ''p'', colors = [(0, 0, 0), (248, 216, 176), (208, 176, 136), (296, 240, 200)]\<rparr>
        8 4 3 1 2 3 = Inl OverflowError"
proof -
  let ?p = "\<lparr>name = ''p'', colors = [(0, 0, 0), (248, 216, 176), (208, 176, 136), (248, 240, 200)]\<rparr>"
  have zero: "draw_circle_with_shading (zeros 16 16) ?p 8 4 0 1 2 3 = Inl ZeroDivisionError"
    by (simp add: draw_circle_with_shading_def py_range_def circle_pixel_def zeros_def)
  have neg: "draw_circle_with_shading (zeros 16 16) ?p 8 4 (- 1) 1 2 3 = Inr (zeros 16 16)"
    by (simp add: draw_circle_with_shading_def py_range_def circle_pixel_def zeros_def)
  have big: "draw_circle_with_shading (zeros 1 1) ?p 300000000000000001 0 500000000000000000 1 2 3
       = set_pixel_safe (zeros 1 1) ?p 0 0 248 216 176 255"
    by (simp add: draw_circle_with_shading_def py_range_def circle_pixel_def zeros_def
          div_gt_0_3_def div_lt_minus_0_3_def midpoint_0_3_def list_get_eval set_pixel_color_def
          set_pixel_safe_def setitem_def is_uint8_def)
  have near: "draw_circle_with_shading (zeros 1 1) ?p 3602879701896398 0 6004799503160663 1 2 3
       = set_pixel_safe (zeros 1 1) ?p 0 0 248 216 176 255"
    by (simp add: draw_circle_with_shading_def py_range_def circle_pixel_def zeros_def
          div_gt_0_3_def div_lt_minus_0_3_def midpoint_0_3_def list_get_eval set_pixel_color_def
          set_pixel_safe_def setitem_def is_uint8_def)
  have diff: "set_pixel_safe (zeros 1 1) ?p 0 0 248 216 176 255
       \<noteq> set_pixel_safe (zeros 1 1) ?p 0 0 248 240 200 255"
    by (simp add: set_pixel_safe_def setitem_def zeros_def is_uint8_def fun_eq_iff)
  have idx: "draw_circle_with_shading (zeros 16 16) ?p 8 4 3 1 2 7 = Inl IndexError"
    by (simp add: draw_circle_with_shading_def py_range_def circle_pixel_def zeros_def
          div_gt_0_3_def div_lt_minus_0_3_def midpoint_0_3_def list_get_def set_pixel_color_def
          upto_rec1)
  have ovf: "draw_circle_with_shading (zeros 16 16)
        \<lparr>name = ''p'', colors = [(0, 0, 0), (248, 216, 176), (208, 176, 136), (296, 240, 200)]\<rparr>
        8 4 3 1 2 3 = Inl OverflowError"
    by (simp add: draw_circle_with_shading_def py_range_def circle_pixel_def zeros_def
          div_gt_0_3_def div_lt_minus_0_3_def midpoint_0_3_def list_get_def set_pixel_color_def
          set_pixel_safe_def setitem_def is_uint8_def upto_rec1)
  have z: "cells (zeros 16 16) 4 8 = (0, 0, 0, 0)" by (simp add: zeros_def)
  from zero neg big near diff idx ovf z show ?thesis by simp
qed

section \<open>The sprite sheet\<close>

lemma paste_size [simp]:
  "size_w (paste sheet im ox oy) = size_w sheet" "size_h (paste sheet im ox oy) = size_h sheet"
  by (simp_all add: paste_def)

lemma paste_frames_size:
  "size_w (paste_frames w i fs sheet) = size_w sheet \<and> size_h (paste_frames w i fs sheet) = size_h sheet"
  by (induction fs arbitrary: i sheet) simp_all

lemma paste_left_untouched:
  "int c < ox \<Longrightarrow> getpixel (paste sheet im ox oy) c y = getpixel sheet c y"
  by (simp add: paste_def)

lemma paste_frames_left_untouched:
  "0 \<le> w \<Longrightarrow> int c < int i * w \<Longrightarrow> getpixel (paste_frames w i fs sheet) c y = getpixel sheet c y"
proof (induction fs arbitrary: i sheet)
  case Nil
  then show ?case by simp
next
  case (Cons f fs)
  have "int i * w \<le> int (Suc i) * w"
    using Cons.prems(1) by (simp add: distrib_right)
  with Cons.prems(2) have lt: "int c < int (Suc i) * w" by linarith
  have "getpixel (paste_frames w (Suc i) fs (paste sheet (Image_fromarray f) (int i * w) 0)) c y
          = getpixel (paste sheet (Image_fromarray f) (int i * w) 0) c y"
    by (rule Cons.IH [OF Cons.prems(1) lt])
  also have "\<dots> = getpixel sheet c y"
    by (rule paste_left_untouched [OF Cons.prems(2)])
  finally show ?case by simp
qed

lemma paste_block:
  assumes "x < shape1 f" and "y < shape0 f"
    and "i * W + x < size_w sheet" and "y < size_h sheet"
  shows "getpixel (paste sheet (Image_fromarray f) (int i * int W) 0) (i * W + x) y = cells f y x"
proof -
  have "int (i * W + x) - int i * int W = int x" by simp
  then have "nat (int (i * W + x) - int i * int W) = x" by simp
  then show ?thesis
    using assms by (simp add: paste_def Image_fromarray_def)
qed

lemma paste_frames_block:
  assumes "\<forall>f\<in>set fs. shape1 f = W \<and> shape0 f = H"
    and "j < length fs" and "x < W" and "y < H"
    and "(i + length fs) * W \<le> size_w sheet" and "H \<le> size_h sheet"
  shows "getpixel (paste_frames (int W) i fs sheet) ((i + j) * W + x) y = cells (fs ! j) y x"
  using assms
proof (induction fs arbitrary: i j sheet)
  case Nil
  then show ?case by simp
next
  case (Cons f fs)
  from Cons.prems(1) have f: "shape1 f = W" "shape0 f = H" by simp_all
  let ?sheet = "paste sheet (Image_fromarray f) (int i * int W) 0"
  show ?case
  proof (cases j)
    case 0
    have "i * W + W \<le> (i + length (f # fs)) * W" by (simp add: distrib_right)
    with Cons.prems(3,5) have inw: "i * W + x < size_w sheet" by linarith
    have inh: "y < size_h sheet" using Cons.prems(4,6) by linarith
    have "int (i * W + x) < int (Suc i) * int W"
    proof -
      have "int x < int W" using Cons.prems(3) by simp
      then have "int i * int W + int x < int i * int W + int W" by linarith
      then show ?thesis by (simp add: distrib_right)
    qed
    then have "getpixel (paste_frames (int W) (Suc i) fs ?sheet) (i * W + x) y
                 = getpixel ?sheet (i * W + x) y"
      by (intro paste_frames_left_untouched) simp_all
    also have "\<dots> = cells f y x"
      by (rule paste_block) (simp_all add: f Cons.prems(3,4) inw inh)
    finally show ?thesis using 0 by simp
  next
    case (Suc j')
    have "getpixel (paste_frames (int W) (Suc i) fs ?sheet) ((Suc i + j') * W + x) y
            = cells (fs ! j') y x"
    proof (rule Cons.IH)
      show "\<forall>f\<in>set fs. shape1 f = W \<and> shape0 f = H" using Cons.prems(1) by simp
      show "j' < length fs" using Cons.prems(2) Suc by simp
      show "x < W" by (rule Cons.prems(3))
      show "y < H" by (rule Cons.prems(4))
      show "(Suc i + length fs) * W \<le> size_w ?sheet" using Cons.prems(5) by simp
      show "H \<le> size_h ?sheet" using Cons.prems(6) by simp
    qed
    then show ?thesis using Suc by simp
  qed
qed

section \<open>The animation and export claims\<close>

text \<open>
  Claim C5, for the legendary generator. The walk offset over the frame indices 0, 1, 2, 3
  is 0, -1, 0, +1. For every direction, \<open>draw_legendary_character\<close> on a 16 by 16 frame,
  with fourteen palette indices that are in range and name colours whose channels are
  bytes, draws the left leg in column 6 from row \<open>11 + walk_offset\<close> down and the right
  leg in column 9 from row \<open>11 - walk_offset\<close> down: three rows of the pants highlight
  colour, the fourth row and its outer neighbour in the colour of the shoes. So the legs are
  level on frames 0 and 2 and one row off the neutral row, in opposite directions, on frames
  1 and 3. In \<open>create_enhanced_sprite\<close> the offset over the frame indices is 0, +1, 0, -1,
  added to the row of the left leg and subtracted from that of the right leg.
\<close>

theorem walking_leg_offsets:
  assumes "shape0 frame = 16" and "shape1 frame = 16"
    and "14 \<le> length cols"
    and "list_all (\<lambda>i. \<exists>c. list_get (colors palette) i = Inr c \<and> is_uint8_color c) (take 14 cols)"
    and "list_get (colors palette) (cols ! 11) = Inr pants_highlight"
    and "list_get (colors palette) (cols ! 12) = Inr shoes"
    and "frame_idx < 4"
  shows "walk_offset frame_idx = [0, - 1, 0, 1] ! frame_idx
     \<and> (\<exists>fr'. draw_legendary_character frame palette direction (walk_offset frame_idx) cols = Inr fr'
          \<and> cells fr' (nat (11 + walk_offset frame_idx)) 6 = rgba pants_highlight
          \<and> cells fr' (nat (11 + walk_offset frame_idx) + 1) 6 = rgba pants_highlight
          \<and> cells fr' (nat (11 + walk_offset frame_idx) + 2) 6 = rgba pants_highlight
          \<and> cells fr' (nat (11 + walk_offset frame_idx) + 3) 5 = rgba shoes
          \<and> cells fr' (nat (11 + walk_offset frame_idx) + 3) 6 = rgba shoes
          \<and> cells fr' (nat (11 - walk_offset frame_idx)) 9 = rgba pants_highlight
          \<and> cells fr' (nat (11 - walk_offset frame_idx) + 1) 9 = rgba pants_highlight
          \<and> cells fr' (nat (11 - walk_offset frame_idx) + 2) 9 = rgba pants_highlight
          \<and> cells fr' (nat (11 - walk_offset frame_idx) + 3) 9 = rgba shoes
          \<and> cells fr' (nat (11 - walk_offset frame_idx) + 3) 10 = rgba shoes)
     \<and> leg_offset frame_idx = [0, 1, 0, - 1] ! frame_idx
     \<and> enhanced_left_leg_y y direction (is_walking frame_idx) (leg_offset frame_idx)
          = y + 11 + leg_offset frame_idx
     \<and> enhanced_right_leg_y y direction (is_walking frame_idx) (leg_offset frame_idx)
          = y + 11 - leg_offset frame_idx"
proof -
  from assms(7) have idx: "frame_idx = 0 \<or> frame_idx = 1 \<or> frame_idx = 2 \<or> frame_idx = 3"
    by auto
  then have w: "walk_offset frame_idx = [0, - 1, 0, 1] ! frame_idx"
    by (auto simp: walk_offset_def)
  from idx have off: "walk_offset frame_idx = - 1 \<or> walk_offset frame_idx = 0 \<or> walk_offset frame_idx = 1"
    by (auto simp: walk_offset_def)
  from idx have e: "leg_offset frame_idx = [0, 1, 0, - 1] ! frame_idx"
    "enhanced_left_leg_y y direction (is_walking frame_idx) (leg_offset frame_idx)
          = y + 11 + leg_offset frame_idx"
    "enhanced_right_leg_y y direction (is_walking frame_idx) (leg_offset frame_idx)
          = y + 11 - leg_offset frame_idx"
    by (auto simp: leg_offset_def is_walking_def enhanced_left_leg_y_def enhanced_right_leg_y_def
          enhanced_legs_y_def)
  from draw_legendary_character_legs [OF assms(1-6) off, of direction] w e
  show ?thesis by simp
qed

text \<open>
  The palette of the player sprite as \<open>create_enhanced_player_sprite\<close> builds it, and its
  frame 1 facing south: the offset is -1, the left leg starts in row 10 and the right leg in
  row 12.
\<close>

theorem walking_leg_offsets_witness:
  "add_colors (RetroColorPalette_init ''legendary_player_palette'')
       [(0, 0, 0), (255, 220, 177), (210, 180, 140), (255, 240, 200),
        (101, 67, 33), (70, 45, 20), (140, 95, 50),
        (72, 118, 170), (50, 85, 125), (100, 150, 200),
        (45, 45, 60), (30, 30, 40), (65, 65, 85), (30, 30, 30), (240, 240, 240)]
     = Inr ([0, 1, 2, 3, 4, 5, 6, 7, 8, 9, 10, 11, 12, 13, 14],
            \<lparr>name = ''legendary_player_palette'',
               colors = [(0, 0, 0), (248, 216, 176), (208, 176, 136), (248, 240, 200),
                         (96, 64, 32), (64, 40, 16), (136, 88, 48),
                         (72, 112, 168), (48, 80, 120), (96, 144, 200),
                         (40, 40, 56), (24, 24, 40), (64, 64, 80), (24, 24, 24), (240, 240, 240)]\<rparr>)
   \<and> walk_offset 1 = - 1
   \<and> (\<exists>fr'. draw_legendary_character (zeros 16 16)
              \<lparr>name = ''legendary_player_palette'',
                 colors = [(0, 0, 0), (248, 216, 176), (208, 176, 136), (248, 240, 200),
                           (96, 64, 32), (64, 40, 16), (136, 88, 48),
                           (72, 112, 168), (48, 80, 120), (96, 144, 200),
                           (40, 40, 56), (24, 24, 40), (64, 64, 80), (24, 24, 24), (240, 240, 240)]\<rparr>
              South (walk_offset 1) [1, 2, 3, 4, 5, 6, 7, 8, 9, 10, 11, 12, 13, 14] = Inr fr'
        \<and> cells fr' 10 6 = (64, 64, 80, 255)
        \<and> cells fr' 12 6 = (64, 64, 80, 255)
        \<and> cells fr' 13 6 = (24, 24, 24, 255)
        \<and> cells fr' 13 5 = (24, 24, 24, 255)
        \<and> cells fr' 12 9 = (64, 64, 80, 255)
        \<and> cells fr' 14 9 = (64, 64, 80, 255)
        \<and> cells fr' 15 9 = (24, 24, 24, 255)
        \<and> cells fr' 15 10 = (24, 24, 24, 255))"
proof -
  let ?p = "\<lparr>name = ''legendary_player_palette'',
               colors = [(0, 0, 0), (248, 216, 176), (208, 176, 136), (248, 240, 200),
                         (96, 64, 32), (64, 40, 16), (136, 88, 48),
                         (72, 112, 168), (48, 80, 120), (96, 144, 200),
                         (40, 40, 56), (24, 24, 40), (64, 64, 80), (24, 24, 24), (240, 240, 240)]\<rparr>"
  let ?cols = "[1, 2, 3, 4, 5, 6, 7, 8, 9, 10, 11, 12, 13, 14] :: int list"
  have pal: "add_colors (RetroColorPalette_init ''legendary_player_palette'')
       [(0, 0, 0), (255, 220, 177), (210, 180, 140), (255, 240, 200),
        (101, 67, 33), (70, 45, 20), (140, 95, 50),
        (72, 118, 170), (50, 85, 125), (100, 150, 200),
        (45, 45, 60), (30, 30, 40), (65, 65, 85), (30, 30, 30), (240, 240, 240)]
     = Inr ([0, 1, 2, 3, 4, 5, 6, 7, 8, 9, 10, 11, 12, 13, 14], ?p)"
    by (simp add: add_color_eval)
  have s: "shape0 (zeros 16 16) = 16" "shape1 (zeros 16 16) = 16" by (simp_all add: zeros_def)
  have len: "14 \<le> length ?cols" by simp
  have ok: "list_all (\<lambda>i. \<exists>c. list_get (colors ?p) i = Inr c \<and> is_uint8_color c) (take 14 ?cols)"
    by (simp add: list_get_def is_uint8_color_def is_uint8_def)
  have ph: "list_get (colors ?p) (?cols ! 11) = Inr (64, 64, 80)"
    and so: "list_get (colors ?p) (?cols ! 12) = Inr (24, 24, 24)"
    by (simp_all add: list_get_def)
  have i: "(1::nat) < 4" by simp
  have w: "walk_offset 1 = - 1" by (simp add: walk_offset_def)
  from walking_leg_offsets [OF s len ok ph so i, of South]
  obtain fr' where "draw_legendary_character (zeros 16 16) ?p South (walk_offset 1) ?cols = Inr fr'"
    "cells fr' (nat (11 + walk_offset 1)) 6 = rgba (64, 64, 80)"
    "cells fr' (nat (11 + walk_offset 1) + 2) 6 = rgba (64, 64, 80)"
    "cells fr' (nat (11 + walk_offset 1) + 3) 6 = rgba (24, 24, 24)"
    "cells fr' (nat (11 + walk_offset 1) + 3) 5 = rgba (24, 24, 24)"
    "cells fr' (nat (11 - walk_offset 1)) 9 = rgba (64, 64, 80)"
    "cells fr' (nat (11 - walk_offset 1) + 2) 9 = rgba (64, 64, 80)"
    "cells fr' (nat (11 - walk_offset 1) + 3) 9 = rgba (24, 24, 24)"
    "cells fr' (nat (11 - walk_offset 1) + 3) 10 = rgba (24, 24, 24)"
    by blast
  then have "draw_legendary_character (zeros 16 16) ?p South (walk_offset 1) ?cols = Inr fr'
        \<and> cells fr' 10 6 = (64, 64, 80, 255)
        \<and> cells fr' 12 6 = (64, 64, 80, 255)
        \<and> cells fr' 13 6 = (24, 24, 24, 255)
        \<and> cells fr' 13 5 = (24, 24, 24, 255)
        \<and> cells fr' 12 9 = (64, 64, 80, 255)
        \<and> cells fr' 14 9 = (64, 64, 80, 255)
        \<and> cells fr' 15 9 = (24, 24, 24, 255)
        \<and> cells fr' 15 10 = (24, 24, 24, 255)"
    by (simp add: walk_offset_def rgba_def)
  with pal w show ?thesis by blast
qed

text \<open>
  Claim C5 as stated, for both scripts, fails in \<open>create_enhanced_sprite\<close>: its offset over
  the frame indices 0, 1, 2, 3 is 0, +1, 0, -1, so on frame 1 the left leg is one row below
  the neutral row, where the legendary generator has it one row above.
\<close>

theorem create_enhanced_sprite_leg_offset_counterexample:
  "map leg_offset [0, 1, 2, 3] = [0, 1, 0, - 1]
   \<and> map leg_offset [0, 1, 2, 3] \<noteq> [0, - 1, 0, 1]
   \<and> enhanced_left_leg_y 0 South (is_walking 1) (leg_offset 1) = enhanced_legs_y 0 + 1
   \<and> walk_offset 1 = - 1"
  by (simp add: leg_offset_def is_walking_def enhanced_left_leg_y_def walk_offset_def)

text \<open>
  Claim C8. For a sprite with at least one frame, all frames of shape
  \<open>(sprite_height, sprite_width, 4)\<close>, \<open>save_to_files\<close> writes two files. The sheet
  image has width \<open>N * sprite_width\<close> and height \<open>sprite_height\<close>, and frame \<open>i\<close>
  occupies the columns from \<open>i * sprite_width\<close> on, in list order. The metadata holds the
  name, the palette colours in order, the frame width and height and the frame count.
\<close>

theorem save_to_files_sheet:
  assumes "sprite_frames self \<noteq> []"
    and "\<forall>f\<in>set (sprite_frames self).
           int (shape1 f) = sprite_width self \<and> int (shape0 f) = sprite_height self"
  shows "\<exists>sheet.
           save_to_files self output_dir =
             Inr [((output_dir, sprite_name self @ ''.png''), PNG sheet),
                  ((output_dir, sprite_name self @ ''_palette.json''),
                   JSON (JObject
                     [(''name'', JString (sprite_name self)),
                      (''colors'', JArray (map (\<lambda>(r, g, b).
                          JObject [(''r'', JInt r), (''g'', JInt g), (''b'', JInt b)])
                          (colors (sprite_palette self)))),
                      (''width'', JInt (sprite_width self)),
                      (''height'', JInt (sprite_height self)),
                      (''frames'', JInt (int (length (sprite_frames self))))]))]
         \<and> int (size_w sheet) = int (length (sprite_frames self)) * sprite_width self
         \<and> int (size_h sheet) = sprite_height self
         \<and> (\<forall>i<length (sprite_frames self). \<forall>x y.
               int x < sprite_width self \<longrightarrow> int y < sprite_height self \<longrightarrow>
               getpixel sheet (i * nat (sprite_width self) + x) y
                 = cells (sprite_frames self ! i) y x)"
proof -
  let ?fs = "sprite_frames self"
  let ?N = "length ?fs"
  from assms(1) obtain f0 where f0: "f0 \<in> set ?fs" by (cases ?fs) auto
  define W where "W = shape1 f0"
  define H where "H = shape0 f0"
  from assms(2) f0 have w: "sprite_width self = int W" and h: "sprite_height self = int H"
    by (simp_all add: W_def H_def)
  have shapes: "\<forall>f\<in>set ?fs. shape1 f = W \<and> shape0 f = H"
    using assms(2) w h by simp
  let ?blank = "\<lparr>size_w = ?N * W, size_h = H, getpixel = (\<lambda>x y. (0, 0, 0, 0))\<rparr>"
  let ?sheet = "paste_frames (int W) 0 ?fs ?blank"
  have nn: "\<not> int W * int ?N < 0"
    by (simp add: not_less)
  have nt: "nat (int W * int ?N) = ?N * W"
    by (simp add: nat_mult_distrib mult.commute)
  have new: "Image_new (sprite_width self * int ?N) (sprite_height self) (0, 0, 0, 0) = Inr ?blank"
    unfolding Image_new_def w h using nn nt by simp
  have save: "save_to_files self output_dir =
             Inr [((output_dir, sprite_name self @ ''.png''), PNG ?sheet),
                  ((output_dir, sprite_name self @ ''_palette.json''),
                   JSON (JObject
                     [(''name'', JString (sprite_name self)),
                      (''colors'', JArray (map (\<lambda>(r, g, b).
                          JObject [(''r'', JInt r), (''g'', JInt g), (''b'', JInt b)])
                          (colors (sprite_palette self)))),
                      (''width'', JInt (sprite_width self)),
                      (''height'', JInt (sprite_height self)),
                      (''frames'', JInt (int (length (sprite_frames self))))]))]"
    unfolding save_to_files_def Let_def using assms(1) new by (simp add: w)
  have sz: "size_w ?sheet = ?N * W" "size_h ?sheet = H"
    using paste_frames_size [of "int W" 0 ?fs ?blank] by simp_all
  have px: "getpixel ?sheet (i * nat (sprite_width self) + x) y = cells (?fs ! i) y x"
    if "i < ?N" "int x < sprite_width self" "int y < sprite_height self" for i x y
  proof -
    have "getpixel (paste_frames (int W) 0 ?fs ?blank) ((0 + i) * W + x) y = cells (?fs ! i) y x"
    proof (rule paste_frames_block [OF shapes that(1)])
      show "x < W" using that(2) w by simp
      show "y < H" using that(3) h by simp
      show "(0 + ?N) * W \<le> size_w ?blank" by simp
      show "H \<le> size_h ?blank" by simp
    qed
    then show ?thesis by (simp add: w)
  qed
  have "int (size_w ?sheet) = int ?N * sprite_width self" "int (size_h ?sheet) = sprite_height self"
    by (simp_all add: sz w h)
  with save px show ?thesis by (intro exI [of _ ?sheet]) blast
qed

text \<open>
  A sprite of two frames of width 2 and height 1: the sheet is 4 by 1, its first pixel
  comes from the first frame and its last from the second.
\<close>

theorem save_to_files_sheet_witness:
  "sprite_frames \<lparr>sprite_width = 2, sprite_height = 1, sprite_name = ''t'',
       sprite_frames = [\<lparr>shape0 = 1, shape1 = 2, cells = (\<lambda>y x. (8, 8, 8, 255))\<rparr>,
                        \<lparr>shape0 = 1, shape1 = 2, cells = (\<lambda>y x. (16, 16, 16, 255))\<rparr>],
       sprite_palette = \<lparr>name = ''t_palette'', colors = [(0, 0, 0)]\<rparr>\<rparr> \<noteq> []
   \<and> (\<exists>sheet.
        save_to_files \<lparr>sprite_width = 2, sprite_height = 1, sprite_name = ''t'',
            sprite_frames = [\<lparr>shape0 = 1, shape1 = 2, cells = (\<lambda>y x. (8, 8, 8, 255))\<rparr>,
                             \<lparr>shape0 = 1, shape1 = 2, cells = (\<lambda>y x. (16, 16, 16, 255))\<rparr>],
            sprite_palette = \<lparr>name = ''t_palette'', colors = [(0, 0, 0)]\<rparr>\<rparr> ''out''
          = Inr [((''out'', ''t.png''), PNG sheet),
                 ((''out'', ''t_palette.json''),
                  JSON (JObject
                    [(''name'', JString ''t''),
                     (''colors'', JArray [JObject [(''r'', JInt 0), (''g'', JInt 0), (''b'', JInt 0)]]),
                     (''width'', JInt 2),
                     (''height'', JInt 1),
                     (''frames'', JInt 2)]))]
        \<and> int (size_w sheet) = 4 \<and> int (size_h sheet) = 1
        \<and> getpixel sheet 0 0 = (8, 8, 8, 255)
        \<and> getpixel sheet 3 0 = (16, 16, 16, 255))"
proof -
  let ?A = "\<lparr>shape0 = 1, shape1 = 2, cells = (\<lambda>y x. (8, 8, 8, 255))\<rparr> :: frame"
  let ?B = "\<lparr>shape0 = 1, shape1 = 2, cells = (\<lambda>y x. (16, 16, 16, 255))\<rparr> :: frame"
  let ?S = "\<lparr>sprite_width = 2, sprite_height = 1, sprite_name = ''t'',
       sprite_frames = [?A, ?B],
       sprite_palette = \<lparr>name = ''t_palette'', colors = [(0, 0, 0)]\<rparr>\<rparr>"
  have ne: "sprite_frames ?S \<noteq> []" by simp
  have sh: "\<forall>f\<in>set (sprite_frames ?S).
           int (shape1 f) = sprite_width ?S \<and> int (shape0 f) = sprite_height ?S"
    by simp
  from save_to_files_sheet [OF ne sh, of "''out''"]
  obtain sheet where
    s: "save_to_files ?S ''out'' =
             Inr [((''out'', sprite_name ?S @ ''.png''), PNG sheet),
                  ((''out'', sprite_name ?S @ ''_palette.json''),
                   JSON (JObject
                     [(''name'', JString (sprite_name ?S)),
                      (''colors'', JArray (map (\<lambda>(r, g, b).
                          JObject [(''r'', JInt r), (''g'', JInt g), (''b'', JInt b)])
                          (colors (sprite_palette ?S)))),
                      (''width'', JInt (sprite_width ?S)),
                      (''height'', JInt (sprite_height ?S)),
                      (''frames'', JInt (int (length (sprite_frames ?S))))]))]"
    and w: "int (size_w sheet) = int (length (sprite_frames ?S)) * sprite_width ?S"
    and h: "int (size_h sheet) = sprite_height ?S"
    and p: "\<forall>i<length (sprite_frames ?S). \<forall>x y.
               int x < sprite_width ?S \<longrightarrow> int y < sprite_height ?S \<longrightarrow>
               getpixel sheet (i * nat (sprite_width ?S) + x) y
                 = cells (sprite_frames ?S ! i) y x"
    by blast
  from p [rule_format, of 0 0 0] have p0: "getpixel sheet 0 0 = (8, 8, 8, 255)" by simp
  from p [rule_format, of 1 1 0] have p3: "getpixel sheet 3 0 = (16, 16, 16, 255)" by simp
  from s w h p0 p3 ne show ?thesis by simp
qed

end
